theory Spec2Isabelle
  imports Complex_Main "HOL-Library.AList"
begin

section \<open>Strings\<close>

text \<open>
  JavaScript strings are modelled as \<^typ>\<open>string\<close> (the UTF-8 bytes of the text).
  Only prefix and substring tests and concatenation are used, and those agree on UTF-8
  bytes and on code units.
\<close>

fun strip_prefix :: "'a list \<Rightarrow> 'a list \<Rightarrow> 'a list option" where
  "strip_prefix [] s = Some s"
| "strip_prefix (p # ps) [] = None"
| "strip_prefix (p # ps) (c # cs) = (if p = c then strip_prefix ps cs else None)"

text \<open>\<^verbatim>\<open>s.includes(p)\<close>: \<open>p\<close> occurs in \<open>s\<close> at some position.\<close>

fun str_includes :: "'a list \<Rightarrow> 'a list \<Rightarrow> bool" where
  "str_includes [] p = (p = [])"
| "str_includes (c # cs) p = (strip_prefix p (c # cs) \<noteq> None \<or> str_includes cs p)"

text \<open>A template literal prints \<^verbatim>\<open>undefined\<close> for a missing value.\<close>

definition js_template :: "string option \<Rightarrow> string" where
  "js_template v = (case v of None \<Rightarrow> ''undefined'' | Some s \<Rightarrow> s)"

text \<open>\<^verbatim>\<open>v || d\<close> on \<^verbatim>\<open>string | undefined\<close>: the empty string is falsy too.\<close>

definition js_or :: "string option \<Rightarrow> string \<Rightarrow> string" where
  "js_or v d = (case v of None \<Rightarrow> d | Some s \<Rightarrow> if s = [] then d else s)"

section \<open>The data URL pattern of geminiService.ts\<close>

text \<open>
  \<^verbatim>\<open>dataUrl.match(/^data:(image\/\w+);base64,(.*)$/)\<close>. The class \<^verbatim>\<open>\w\<close> is
  \<^verbatim>\<open>[A-Za-z0-9_]\<close>; \<^verbatim>\<open>\w+\<close> must be followed by \<^verbatim>\<open>;\<close>, which is no word character, so
  only the longest run of word characters can match. Without the \<^verbatim>\<open>s\<close> and \<^verbatim>\<open>m\<close> flags
  \<^verbatim>\<open>.\<close> matches no line terminator (LF, CR, U+2028, U+2029) and \<^verbatim>\<open>$\<close> only the end of
  the input. The result is the pair of the two groups.
\<close>

definition is_word_char :: "char \<Rightarrow> bool" where
  "is_word_char c =
     (let n = (of_char c :: nat)
      in (48 \<le> n \<and> n \<le> 57) \<or> (65 \<le> n \<and> n \<le> 90) \<or> n = 95 \<or> (97 \<le> n \<and> n \<le> 122))"

definition has_line_terminator :: "string \<Rightarrow> bool" where
  "has_line_terminator s =
     (CHR 0x0A \<in> set s \<or> CHR 0x0D \<in> set s
      \<or> str_includes s [CHR 0xE2, CHR 0x80, CHR 0xA8]
      \<or> str_includes s [CHR 0xE2, CHR 0x80, CHR 0xA9])"

definition match_data_url :: "string \<Rightarrow> (string \<times> string) option" where
  "match_data_url dataUrl =
     (case strip_prefix ''data:image/'' dataUrl of
        None \<Rightarrow> None
      | Some t \<Rightarrow>
          (let w = takeWhile is_word_char t; r = dropWhile is_word_char t
           in if w = [] then None
              else (case strip_prefix '';base64,'' r of
                      None \<Rightarrow> None
                    | Some d \<Rightarrow> if has_line_terminator d then None
                                else Some (''image/'' @ w, d))))"

section \<open>The response of the image API\<close>

text \<open>
  The fields that \<^verbatim>\<open>generateCharacterImage\<close> and \<^verbatim>\<open>generateSceneImage\<close> read of a
  \<^verbatim>\<open>GenerateContentResponse\<close>; every field the source reads through \<^verbatim>\<open>?.\<close> is optional.
  \<open>response_text\<close> is the value of the response's \<^verbatim>\<open>text\<close> accessor.
\<close>

record gen_blob =
  mimeType :: "string option"
  data :: "string option"

record gen_part =
  inlineData :: "gen_blob option"
  part_text :: "string option"

record gen_content =
  parts :: "gen_part list option"

record gen_candidate =
  content :: "gen_content option"

record gen_response =
  candidates :: "gen_candidate list option"
  response_text :: "string option"

text \<open>\<^verbatim>\<open>response.candidates?.[0]?.content?.parts?.find(part => part.inlineData)\<close>\<close>

definition imagePartFromResponse :: "gen_response \<Rightarrow> gen_part option" where
  "imagePartFromResponse response =
     (case candidates response of
        None \<Rightarrow> None
      | Some cs \<Rightarrow>
          (case cs of
             [] \<Rightarrow> None
           | c # _ \<Rightarrow>
               (case content c of
                  None \<Rightarrow> None
                | Some ct \<Rightarrow>
                    (case parts ct of
                       None \<Rightarrow> None
                     | Some ps \<Rightarrow> find (\<lambda>part. inlineData part \<noteq> None) ps))))"

definition data_url :: "gen_blob \<Rightarrow> string" where
  "data_url b = ''data:'' @ js_template (mimeType b) @ '';base64,'' @ js_template (data b)"

section \<open>Errors and messages\<close>

text \<open>
  A value caught by \<^verbatim>\<open>catch (error)\<close>: an \<^verbatim>\<open>Error\<close> with its message, or any other value,
  given by its \<^verbatim>\<open>JSON.stringify\<close> text (a \<^verbatim>\<open>string\<close> by its TypeScript signature).
  Both functions reject with a fresh \<^verbatim>\<open>Error\<close> only, so a rejection is its message.
\<close>

datatype thrown = ErrorObj string | NonError string

datatype api_outcome = Responds gen_response | Throws thrown

text \<open>The two functions share their control flow and differ in their messages.\<close>

datatype gen_kind = CharacterImage | SceneImage

definition invalid_url_message :: "gen_kind \<Rightarrow> string" where
  "invalid_url_message k =
     (case k of
        CharacterImage \<Rightarrow>
          ''Invalid image data URL format. Expected 'data:image/...;base64,...'' @ [CHR 0x27]
      | SceneImage \<Rightarrow>
          ''Invalid image data URL format. Expected 'data:image/<format>;base64,<data>''
          @ [CHR 0x27])"

definition text_instead_message :: "gen_response \<Rightarrow> string" where
  "text_instead_message response =
     ''The AI model responded with text instead of an image: '' @ [CHR 0x22]
     @ js_or (response_text response) ''No text response received.'' @ [CHR 0x22]"

definition unavailable_message :: string where
  "unavailable_message =
     ''The AI service is temporarily unavailable. Please try again in a few moments.''"

definition details_message :: "gen_kind \<Rightarrow> string" where
  "details_message k =
     (case k of
        CharacterImage \<Rightarrow> ''The AI model failed to generate an image. Details: ''
      | SceneImage \<Rightarrow> ''The AI model failed to generate a scene image. Details: '')"

definition unknown_message :: "gen_kind \<Rightarrow> string" where
  "unknown_message k =
     (case k of
        CharacterImage \<Rightarrow> ''An unknown error occurred while generating the image.''
      | SceneImage \<Rightarrow> ''An unknown error occurred while generating the scene image.'')"

definition exhausted_message :: "gen_kind \<Rightarrow> string" where
  "exhausted_message k =
     (case k of
        CharacterImage \<Rightarrow> ''The AI model failed to generate an image after all retries.''
      | SceneImage \<Rightarrow> ''The AI model failed to generate a scene image after all retries.'')"

section \<open>The retry loop\<close>

definition maxRetries :: nat where
  "maxRetries = 3"

definition initialDelay :: nat where
  "initialDelay = 2000"

text \<open>\<^verbatim>\<open>error instanceof Error ? error.message : JSON.stringify(error)\<close>\<close>

definition errorMessage :: "thrown \<Rightarrow> string" where
  "errorMessage e = (case e of ErrorObj m \<Rightarrow> m | NonError json \<Rightarrow> json)"

definition isRetryableError :: "string \<Rightarrow> bool" where
  \<open>isRetryableError msg =
     (str_includes msg ''"code":500'' \<or>
      str_includes msg ''INTERNAL'' \<or>
      str_includes msg ''"code":429'' \<or>
      str_includes msg ''RESOURCE_EXHAUSTED'' \<or>
      str_includes msg ''xhr error'')\<close>

text \<open>
  The \<^verbatim>\<open>try\<close> block after the call has returned or thrown: the data URL that the function
  returns, or the value that reaches \<^verbatim>\<open>catch\<close>.
\<close>

definition try_block :: "api_outcome \<Rightarrow> thrown + string" where
  "try_block outcome =
     (case outcome of
        Throws e \<Rightarrow> Inl e
      | Responds response \<Rightarrow>
          (case imagePartFromResponse response of
             None \<Rightarrow> Inl (ErrorObj (text_instead_message response))
           | Some part \<Rightarrow>
               (case inlineData part of
                  None \<Rightarrow> Inl (ErrorObj (text_instead_message response))
                | Some b \<Rightarrow> Inr (data_url b))))"

text \<open>
  The \<^verbatim>\<open>catch\<close> block: wait and go round the loop again, or throw. \<open>rethrown\<close> is the
  message of the \<^verbatim>\<open>Error\<close> that its \<^verbatim>\<open>else\<close> branch throws.
\<close>

definition rethrown :: "gen_kind \<Rightarrow> thrown \<Rightarrow> string" where
  "rethrown k e =
     (if isRetryableError (errorMessage e) then unavailable_message
      else (case e of
              ErrorObj m \<Rightarrow> details_message k @ m
            | NonError _ \<Rightarrow> unknown_message k))"

datatype catch_result = Retry nat | Rethrow string

definition catch_block :: "gen_kind \<Rightarrow> nat \<Rightarrow> thrown \<Rightarrow> catch_result" where
  "catch_block k attempt e =
     (if isRetryableError (errorMessage e) \<and> attempt < maxRetries
      then Retry (initialDelay * 2 ^ (attempt - 1))
      else Rethrow (rethrown k e))"

text \<open>
  What a caller can observe of one invocation: the calls of \<^verbatim>\<open>ai.models.generateContent\<close>
  (with the attempt number, the image parts and the prompt sent) and the timers awaited,
  in order, and the value the promise settles with (\<open>Inl\<close> a rejection message, \<open>Inr\<close>
  the data URL). The API is a function from the attempt number to what the call of that
  attempt does. Console output is left out.
\<close>

type_synonym request = "(string \<times> string) list \<times> string"

datatype event = ApiCall nat request | Sleep nat

type_synonym settled = "event list \<times> (string + string)"

definition after :: "event list \<Rightarrow> settled \<Rightarrow> settled" where
  "after es p = (es @ fst p, snd p)"

function retry_loop :: "gen_kind \<Rightarrow> request \<Rightarrow> (nat \<Rightarrow> api_outcome) \<Rightarrow> nat \<Rightarrow> settled" where
  "retry_loop k req api attempt =
     (if attempt \<le> maxRetries then
        (case try_block (api attempt) of
           Inr url \<Rightarrow> ([ApiCall attempt req], Inr url)
         | Inl e \<Rightarrow>
             (case catch_block k attempt e of
                Retry delay \<Rightarrow>
                  after [ApiCall attempt req, Sleep delay] (retry_loop k req api (attempt + 1))
              | Rethrow m \<Rightarrow> ([ApiCall attempt req], Inl m)))
      else ([], Inl (exhausted_message k)))"
  by pat_completeness auto
termination
  by (relation "measure (\<lambda>(k, req, api, attempt). Suc maxRetries - attempt)") auto

declare retry_loop.simps [simp del]

text \<open>\<^verbatim>\<open>urls.map(dataUrl => ...)\<close> with a callback that throws at the first mismatch.\<close>

fun imageParts :: "gen_kind \<Rightarrow> string list \<Rightarrow> string + (string \<times> string) list" where
  "imageParts k [] = Inr []"
| "imageParts k (dataUrl # rest) =
     (case match_data_url dataUrl of
        None \<Rightarrow> Inl (invalid_url_message k)
      | Some p \<Rightarrow> (case imageParts k rest of Inl e \<Rightarrow> Inl e | Inr ps \<Rightarrow> Inr (p # ps)))"

definition generateCharacterImage ::
  "string list \<Rightarrow> string \<Rightarrow> (nat \<Rightarrow> api_outcome) \<Rightarrow> settled" where
  "generateCharacterImage imageDataUrls prompt api =
     (case imageParts CharacterImage imageDataUrls of
        Inl e \<Rightarrow> ([], Inl e)
      | Inr ps \<Rightarrow> retry_loop CharacterImage (ps, prompt) api 1)"

definition scene_prompt :: "string \<Rightarrow> string \<Rightarrow> string" where
  "scene_prompt scenePrompt stylePrompt =
     ''Create a scene featuring the character from the reference images. \<newline>''
     @ ''\<newline>''
     @ ''SCENE REQUIREMENTS:\<newline>''
     @ scenePrompt @ ''\<newline>''
     @ ''\<newline>''
     @ ''CHARACTER CONSISTENCY:\<newline>''
     @ ''- Use the character images as reference to maintain the exact same character appearance\<newline>''
     @ ''- Keep the same facial features, hair style, clothing, and all distinguishing characteristics\<newline>''
     @ ''- Maintain the same art style: '' @ stylePrompt @ ''\<newline>''
     @ ''\<newline>''
     @ ''COMPOSITION:\<newline>''
     @ ''- Create a dynamic scene that showcases the character in the described scenario\<newline>''
     @ ''- Include appropriate background elements and environmental details\<newline>''
     @ ''- Ensure the character is clearly visible and well-integrated into the scene\<newline>''
     @ ''\<newline>''
     @ ''Use the aspect ratio from the blank image.''"

text \<open>
  \<open>aspectRatioImage\<close> is what the browser's \<^verbatim>\<open>canvas.toDataURL('image/png')\<close> gives for the
  grey 1920 x 1080 placeholder; it is appended to the parts when it matches the pattern.
\<close>

definition generateSceneImage ::
  "string \<Rightarrow> string list \<Rightarrow> string \<Rightarrow> string \<Rightarrow> (nat \<Rightarrow> api_outcome) \<Rightarrow> settled" where
  "generateSceneImage aspectRatioImage characterImageUrls scenePrompt stylePrompt api =
     (case imageParts SceneImage characterImageUrls of
        Inl e \<Rightarrow> ([], Inl e)
      | Inr ps \<Rightarrow>
          (let ps' = (case match_data_url aspectRatioImage of
                        Some p \<Rightarrow> ps @ [p]
                      | None \<Rightarrow> ps)
           in retry_loop SceneImage (ps', scene_prompt scenePrompt stylePrompt) api 1))"

fun is_ApiCall :: "event \<Rightarrow> bool" where
  "is_ApiCall (ApiCall _ _) = True"
| "is_ApiCall (Sleep _) = False"

definition api_calls :: "settled \<Rightarrow> nat" where
  "api_calls p = length (filter is_ApiCall (fst p))"

section \<open>The sheet compositor (lib/albumUtils)\<close>

text \<open>
  A JavaScript object with string keys is an association list in property order, which
  for keys that are no array indices (the pose labels) is the order of insertion; its
  keys are distinct. \<open>obj[k] = v\<close> and \<open>{...obj, [k]: v}\<close> are \<^const>\<open>AList.update\<close>:
  the value is replaced in place, a new key goes to the end.
\<close>

datatype ImageStatus = Pending | Done | Error

record GeneratedImage =
  status :: ImageStatus
  url :: "string option"
  error :: "string option"

type_synonym images = "(string \<times> GeneratedImage) list"

text \<open>A \<^verbatim>\<open>string | null\<close> or \<^verbatim>\<open>string | undefined\<close> used as a condition.\<close>

definition js_truthy :: "string option \<Rightarrow> bool" where
  "js_truthy v = (case v of None \<Rightarrow> False | Some s \<Rightarrow> s \<noteq> [])"

text \<open>\<^verbatim>\<open>imageObj.status === 'done' && imageObj.url\<close>\<close>

definition completed :: "GeneratedImage \<Rightarrow> bool" where
  "completed imageObj = (status imageObj = Done \<and> js_truthy (url imageObj))"

text \<open>\<^verbatim>\<open>entries.reduce((acc, [k, v]) => { acc[k] = v; return acc; }, {})\<close>\<close>

definition from_entries :: "(string \<times> 'v) list \<Rightarrow> (string \<times> 'v) list" where
  "from_entries entries = fold (\<lambda>(k, v) acc. AList.update k v acc) entries []"

text \<open>
  \<^verbatim>\<open>Object.entries(imageData).filter(completed).reduce(...)\<close>: pose and URL of the
  completed images.
\<close>

definition completedImages :: "images \<Rightarrow> (string \<times> string) list" where
  "completedImages imageData =
     from_entries
       (map (\<lambda>(pose, imageObj). (pose, the (url imageObj)))
          (filter (\<lambda>(pose, imageObj). completed imageObj) imageData))"

text \<open>
  The browser, as far as the compositor depends on it: whether \<^verbatim>\<open>getContext('2d')\<close> gives
  a context, which URLs load as an image (\<^verbatim>\<open>onload\<close> rather than \<^verbatim>\<open>onerror\<close>), and the
  encoder behind \<^verbatim>\<open>canvas.toDataURL(type, quality)\<close>.
  The canvas is its size and the drawing calls made on it, in order; coordinates are
  exact rationals where JavaScript computes in doubles, and colours, fonts and shadows
  are left out.
\<close>

datatype image = Img string

datatype draw_op =
    FillRect rat rat rat rat
  | Line rat rat rat rat
  | FillText string rat rat
  | Save
  | Translate rat rat
  | RoundRect rat rat rat rat rat
  | DrawImage image rat rat rat rat
  | Restore

record canvas =
  width :: nat
  height :: nat
  ops :: "draw_op list"

record browser =
  has2d :: bool
  loads :: "string \<Rightarrow> bool"
  toDataURL :: "canvas \<Rightarrow> string \<Rightarrow> rat \<Rightarrow> string"

datatype sheet_error = NoContext | LoadFailed

definition canvasWidth :: nat where
  "canvasWidth = 3508"

definition canvasHeight :: nat where
  "canvasHeight = 2480"

text \<open>\<^verbatim>\<open>for (let i = 0; i < n; i += 50)\<close>: the values of \<open>i\<close>.\<close>

function steps :: "nat \<Rightarrow> nat \<Rightarrow> nat list" where
  "steps i n = (if i < n then i # steps (i + 50) n else [])"
  by pat_completeness auto
termination
  by (relation "measure (\<lambda>(i, n). n - i)") auto

declare steps.simps [simp del]

definition background :: "draw_op list" where
  "background =
     [FillRect 0 0 (of_nat canvasWidth) (of_nat canvasHeight)]
     @ map (\<lambda>i. Line (of_nat i) 0 (of_nat i) (of_nat canvasHeight)) (steps 0 canvasWidth)
     @ map (\<lambda>i. Line 0 (of_nat i) (of_nat canvasWidth) (of_nat i)) (steps 0 canvasHeight)"

definition title :: "draw_op list" where
  "title =
     [FillText ''Character Crafter'' (of_nat canvasWidth / 2) 150,
      FillText ''Generated on Google AI Studio'' (of_nat canvasWidth / 2) 220]"

definition grid_cols :: nat where
  "grid_cols = 3"

definition grid_rows :: nat where
  "grid_rows = 2"

definition grid_padding :: rat where
  "grid_padding = 100"

definition contentTopMargin :: rat where
  "contentTopMargin = 300"

definition contentHeight :: rat where
  "contentHeight = of_nat canvasHeight - contentTopMargin"

definition cellWidth :: rat where
  "cellWidth = (of_nat canvasWidth - grid_padding * (of_nat grid_cols + 1)) / of_nat grid_cols"

definition cellHeight :: rat where
  "cellHeight = (contentHeight - grid_padding * (of_nat grid_rows + 1)) / of_nat grid_rows"

definition cardAspectRatio :: rat where
  "cardAspectRatio = 5 / 4"

definition maxCardWidth :: rat where
  "maxCardWidth = cellWidth * (95 / 100)"

definition maxCardHeight :: rat where
  "maxCardHeight = cellHeight * (95 / 100)"

definition cardHeight :: rat where
  "cardHeight =
     (if maxCardWidth * cardAspectRatio > maxCardHeight then maxCardHeight
      else maxCardWidth * cardAspectRatio)"

definition cardWidth :: rat where
  "cardWidth =
     (if maxCardWidth * cardAspectRatio > maxCardHeight then cardHeight / cardAspectRatio
      else maxCardWidth)"

definition imageContainerHeight :: rat where
  "imageContainerHeight = cardHeight * (8 / 10)"

definition imageContainerWidth :: rat where
  "imageContainerWidth = cardWidth * (9 / 10)"

text \<open>The body of the \<^verbatim>\<open>forEach\<close> callback once \<open>row\<close> and \<open>col\<close> are computed.\<close>

definition draw_cell :: "string \<Rightarrow> image \<Rightarrow> nat \<Rightarrow> nat \<Rightarrow> draw_op list" where
  "draw_cell pose img row col =
     (let x = grid_padding * (of_nat col + 1) + cellWidth * of_nat col
                + (cellWidth - cardWidth) / 2;
          y = contentTopMargin + grid_padding * (of_nat row + 1) + cellHeight * of_nat row
                + (cellHeight - cardHeight) / 2;
          imageMargin = (cardWidth - imageContainerWidth) / 2;
          imageX = imageMargin;
          imageY = imageMargin;
          captionY = imageMargin + imageContainerHeight
                       + (cardHeight - (imageMargin + imageContainerHeight)) / 2
      in [Save,
          Translate x y,
          RoundRect 0 0 cardWidth cardHeight 16,
          DrawImage img imageX imageY imageContainerWidth imageContainerHeight,
          FillText pose (cardWidth / 2) captionY,
          Restore])"

text \<open>\<^verbatim>\<open>imagesWithPoses.forEach(({ pose, img }, index) => ...)\<close>\<close>

definition draw_card :: "nat \<times> string \<times> image \<Rightarrow> draw_op list" where
  "draw_card entry =
     (case entry of (index, pose, img) \<Rightarrow>
        (let row = index div grid_cols;
             col = index mod grid_cols
         in draw_cell pose img row col))"

text \<open>
  The result is the error the promise rejects with, or the finished canvas together with
  what the one call \<^verbatim>\<open>onComplete(sheetUrl)\<close> does.
\<close>

definition createCharacterSheet ::
  "browser \<Rightarrow> images \<Rightarrow> (string \<Rightarrow> 'r) \<Rightarrow> sheet_error + (canvas \<times> 'r)" where
  "createCharacterSheet b imageData onComplete =
     (if \<not> has2d b then Inl NoContext
      else
        (let entries = completedImages imageData;
             poses = map fst entries
         in if \<exists>u \<in> set (map snd entries). \<not> loads b u then Inl LoadFailed
            else
              (let loadedImages = map Img (map snd entries);
                   imagesWithPoses = zip poses loadedImages;
                   c = \<lparr>width = canvasWidth, height = canvasHeight,
                        ops = background @ title
                              @ concat (map draw_card (enumerate 0 imagesWithPoses))\<rparr>;
                   sheetUrl = toDataURL b c ''image/jpeg'' (9 / 10)
               in Inr (c, onComplete sheetUrl))))"

section \<open>The application state (App)\<close>

definition POSES :: "string list" where
  "POSES = [''Front View'', ''Side View'', ''Back View'', ''Action Pose'',
            ''Happy Expression'', ''Angry Expression'']"

definition MAX_FILE_SIZE_MB :: nat where
  "MAX_FILE_SIZE_MB = 4"

definition MAX_FILE_SIZE_BYTES :: nat where
  "MAX_FILE_SIZE_BYTES = MAX_FILE_SIZE_MB * 1024 * 1024"

datatype AppState =
    Idle | ImageUploaded | StyleSelection | GeneratingBase | Approval | GeneratingSheet
  | ResultsShown | SceneGenerator | GeneratingScene | SceneResults | CharacterEditor

datatype Style = Style2D | Style3D

datatype EditingContext = CharacterContext | SceneContext

text \<open>
  The \<^verbatim>\<open>useState\<close> cells of \<^verbatim>\<open>App\<close>. \<open>lightboxImage\<close> is (src, title) and
  \<open>generatedScene\<close> is (url, prompt).
\<close>

record App =
  uploadedImage :: "string option"
  generatedImages :: images
  isDownloading :: bool
  appState :: AppState
  selectedStyle :: "Style option"
  selectedDetailedStyle :: "string option"
  baseModelImage :: "string option"
  styleExamples :: "(string \<times> string) list"
  lightboxImage :: "(string \<times> string) option"
  scenePrompt :: string
  generatedScene :: "(string \<times> string) option"
  isGeneratingScene :: bool
  editingImage :: "string option"
  editingContext :: EditingContext

definition initial :: App where
  "initial =
     \<lparr>uploadedImage = None, generatedImages = [], isDownloading = False, appState = Idle,
      selectedStyle = None, selectedDetailedStyle = None, baseModelImage = None,
      styleExamples = [], lightboxImage = None, scenePrompt = [], generatedScene = None,
      isGeneratingScene = False, editingImage = None, editingContext = CharacterContext\<rparr>"

text \<open>What a handler does to the page besides setting state.\<close>

datatype effect =
    Alert string
  | ResetFileInput
  | CallCreateCharacterSheet
  | Download string string

subsection \<open>handleImageUpload\<close>

record File =
  file_size :: nat
  file_name :: string

text \<open>
  The \<^verbatim>\<open>onloadend\<close> callback, with \<^verbatim>\<open>reader.result\<close> (\<^verbatim>\<open>null\<close> when reading failed).
\<close>

definition onloadend :: "string option \<Rightarrow> App \<Rightarrow> App" where
  "onloadend result s =
     s\<lparr>uploadedImage := result, appState := StyleSelection, generatedImages := [],
       baseModelImage := None, selectedStyle := None, selectedDetailedStyle := None\<rparr>"

text \<open>
  \<open>files\<close> is \<^verbatim>\<open>e.target.files\<close>; \<open>readAsDataURL\<close> is what the \<^verbatim>\<open>FileReader\<close> ends with
  for a file. The state returned is the one after \<^verbatim>\<open>onloadend\<close> has run.
\<close>

definition handleImageUpload ::
  "(File \<Rightarrow> string option) \<Rightarrow> File list option \<Rightarrow> App \<Rightarrow> effect list \<times> App" where
  "handleImageUpload readAsDataURL files s =
     (case files of
        None \<Rightarrow> ([], s)
      | Some [] \<Rightarrow> ([], s)
      | Some (file # _) \<Rightarrow>
          if file_size file > MAX_FILE_SIZE_BYTES
          then ([Alert ''File is too large. Please upload an image smaller than 4MB.'',
                 ResetFileInput], s)
          else ([], onloadend (readAsDataURL file) s))"

subsection \<open>generateBaseModel\<close>

definition pending_image :: GeneratedImage where
  "pending_image = \<lparr>status = Pending, url = None, error = None\<rparr>"

definition done_image :: "string \<Rightarrow> GeneratedImage" where
  "done_image resultUrl = \<lparr>status = Done, url = Some resultUrl, error = None\<rparr>"

definition error_image :: "string \<Rightarrow> GeneratedImage" where
  "error_image message = \<lparr>status = Error, url = None, error = Some message\<rparr>"

text \<open>The state updates before the \<^verbatim>\<open>await\<close>, and those after it has settled.\<close>

definition baseModel_pending :: "App \<Rightarrow> App" where
  "baseModel_pending s =
     s\<lparr>appState := GeneratingBase, generatedImages := [(POSES ! 0, pending_image)]\<rparr>"

definition baseModel_settled :: "string + string \<Rightarrow> App \<Rightarrow> App" where
  "baseModel_settled result s =
     (case result of
        Inr resultUrl \<Rightarrow>
          s\<lparr>generatedImages := [(POSES ! 0, done_image resultUrl)],
            baseModelImage := Some resultUrl, appState := Approval\<rparr>
      | Inl message \<Rightarrow>
          s\<lparr>generatedImages := [(POSES ! 0, error_image message)],
            appState := Approval\<rparr>)"

text \<open>
  The prompt is a template text over the selected style; it goes to the API as it is, so
  the handlers take it as an argument.
\<close>

definition generateBaseModel ::
  "string \<Rightarrow> (nat \<Rightarrow> api_outcome) \<Rightarrow> App \<Rightarrow> event list \<times> App" where
  "generateBaseModel prompt api s =
     (if \<not> js_truthy (uploadedImage s) \<or> selectedStyle s = None
         \<or> \<not> js_truthy (selectedDetailedStyle s)
      then ([], s)
      else
        (let run = generateCharacterImage [the (uploadedImage s)] prompt api
         in (fst run, baseModel_settled (snd run) (baseModel_pending s))))"

subsection \<open>handleApproveAndGenerateSheet\<close>

definition remainingPoses :: "string list" where
  "remainingPoses = drop 1 POSES"

definition sheet_pending :: "App \<Rightarrow> App" where
  "sheet_pending s =
     (let initialImages = fold (\<lambda>pose m. AList.update pose pending_image m) remainingPoses
                            (generatedImages s)
      in s\<lparr>appState := GeneratingSheet, generatedImages := initialImages\<rparr>)"

text \<open>\<^verbatim>\<open>setGeneratedImages(prev => ({ ...prev, [pose]: ... }))\<close> in \<^verbatim>\<open>processPose\<close>\<close>

definition pose_settled :: "string \<Rightarrow> string + string \<Rightarrow> App \<Rightarrow> App" where
  "pose_settled pose result s =
     (case result of
        Inr resultUrl \<Rightarrow>
          s\<lparr>generatedImages := AList.update pose (done_image resultUrl) (generatedImages s)\<rparr>
      | Inl message \<Rightarrow>
          s\<lparr>generatedImages :=
              AList.update pose (error_image message) (generatedImages s)\<rparr>)"

text \<open>
  The trace of one run of the handler: when the request of a pose (the call of
  \<^verbatim>\<open>generateCharacterImage\<close>) starts and when its promise has settled, what the request
  does in between, and the timers the handler itself awaits. The API is given per pose.
\<close>

datatype trace_item =
    RequestStart string
  | RequestEvent event
  | RequestEnd string
  | Timeout nat

definition processPose ::
  "string \<Rightarrow> string \<Rightarrow> (string \<Rightarrow> string) \<Rightarrow> (string \<Rightarrow> nat \<Rightarrow> api_outcome) \<Rightarrow> string \<Rightarrow> App
     \<Rightarrow> trace_item list \<times> App" where
  "processPose uploaded baseModel promptFor api pose s =
     (let run = generateCharacterImage [uploaded, baseModel] (promptFor pose) (api pose)
      in ([RequestStart pose] @ map RequestEvent (fst run) @ [RequestEnd pose],
          pose_settled pose (snd run) s))"

text \<open>\<^verbatim>\<open>for (const pose of remainingPoses) { await processPose(pose); await timer(1000); }\<close>\<close>

fun process_poses ::
  "string \<Rightarrow> string \<Rightarrow> (string \<Rightarrow> string) \<Rightarrow> (string \<Rightarrow> nat \<Rightarrow> api_outcome) \<Rightarrow> string list \<Rightarrow> App
     \<Rightarrow> trace_item list \<times> App" where
  "process_poses uploaded baseModel promptFor api [] s = ([], s)"
| "process_poses uploaded baseModel promptFor api (pose # rest) s =
     (let one = processPose uploaded baseModel promptFor api pose s;
          later = process_poses uploaded baseModel promptFor api rest (snd one)
      in (fst one @ [Timeout 1000] @ fst later, snd later))"

definition handleApproveAndGenerateSheet ::
  "(string \<Rightarrow> string) \<Rightarrow> (string \<Rightarrow> nat \<Rightarrow> api_outcome) \<Rightarrow> App \<Rightarrow> trace_item list \<times> App" where
  "handleApproveAndGenerateSheet promptFor api s =
     (if \<not> js_truthy (uploadedImage s) \<or> \<not> js_truthy (baseModelImage s)
         \<or> selectedStyle s = None \<or> \<not> js_truthy (selectedDetailedStyle s)
      then ([], s)
      else
        (let run = process_poses (the (uploadedImage s)) (the (baseModelImage s)) promptFor api
                     remainingPoses (sheet_pending s)
         in (fst run, (snd run)\<lparr>appState := ResultsShown\<rparr>)))"

subsection \<open>handleReset, handleCharacterEdited\<close>

definition handleReset :: "App \<Rightarrow> App" where
  "handleReset s =
     s\<lparr>uploadedImage := None, generatedImages := [], appState := Idle,
       baseModelImage := None, selectedStyle := None, selectedDetailedStyle := None,
       scenePrompt := [], generatedScene := None\<rparr>"

definition handleCharacterEdited :: "string \<Rightarrow> App \<Rightarrow> App" where
  "handleCharacterEdited editedImageUrl s =
     (if editingContext s = SceneContext
      then s\<lparr>generatedScene :=
               (case generatedScene s of
                  Some (_, prompt) \<Rightarrow> Some (editedImageUrl, prompt)
                | None \<Rightarrow> None)\<rparr>
      else s\<lparr>baseModelImage := Some editedImageUrl,
             generatedImages :=
               AList.update (POSES ! 0) (done_image editedImageUrl) (generatedImages s)\<rparr>)"

subsection \<open>handleDownloadSheet\<close>

definition handleDownloadSheet :: "browser \<Rightarrow> App \<Rightarrow> effect list \<times> App" where
  "handleDownloadSheet b s =
     (let imageData =
            from_entries
              (map (\<lambda>(pose, image). (pose, the (url image)))
                 (filter (\<lambda>(pose, image). status image = Done \<and> js_truthy (url image))
                    (generatedImages s)))
      in if length (map fst imageData) < length POSES
         then ([Alert (''Please wait for all images to finish generating ''
                       @ ''before downloading the sheet.'')],
               s\<lparr>isDownloading := False\<rparr>)
         else
           (case createCharacterSheet b (generatedImages s)
                   (\<lambda>sheetDataUrl. [Download sheetDataUrl ''character-crafter-sheet.jpg'']) of
              Inr (c, effects) \<Rightarrow>
                (CallCreateCharacterSheet # effects, s\<lparr>isDownloading := False\<rparr>)
            | Inl e \<Rightarrow>
                ([CallCreateCharacterSheet,
                  Alert (''Sorry, there was an error creating your character sheet. ''
                         @ ''Please try again.'')],
                 s\<lparr>isDownloading := False\<rparr>)))"

subsection \<open>Reachable states\<close>

text \<open>
  One step is one synchronous run: a handler up to its next \<^verbatim>\<open>await\<close>, or the
  continuation after one. These are all the places that call \<^verbatim>\<open>setGeneratedImages\<close>;
  every other handler leaves \<open>generatedImages\<close> as it is (the last rule). The steps may
  interleave in any order.
\<close>

inductive step :: "App \<Rightarrow> App \<Rightarrow> bool" where
  upload: "step s (snd (handleImageUpload readAsDataURL files s))"
| base_pending: "step s (baseModel_pending s)"
| base_settled: "step s (baseModel_settled result s)"
| approve: "step s (sheet_pending s)"
| pose: "pose \<in> set remainingPoses \<Longrightarrow> step s (pose_settled pose result s)"
| reset: "step s (handleReset s)"
| edited: "step s (handleCharacterEdited editedImageUrl s)"
| other: "generatedImages s' = generatedImages s \<Longrightarrow> step s s'"

definition reachable :: "App \<Rightarrow> bool" where
  "reachable s = step\<^sup>*\<^sup>* initial s"

text \<open>Each key at most once, and every key one of the six pose labels.\<close>

definition images_inv :: "images \<Rightarrow> bool" where
  "images_inv m = (distinct (map fst m) \<and> set (map fst m) \<subseteq> set POSES)"

text \<open>No request starts while another is in flight, and no timer runs during one.\<close>

fun sequential :: "string option \<Rightarrow> trace_item list \<Rightarrow> bool" where
  "sequential cur [] = (cur = None)"
| "sequential cur (RequestStart pose # t) = (cur = None \<and> sequential (Some pose) t)"
| "sequential cur (RequestEvent e # t) = (cur \<noteq> None \<and> sequential cur t)"
| "sequential cur (RequestEnd pose # t) = (cur = Some pose \<and> sequential None t)"
| "sequential cur (Timeout n # t) = (cur = None \<and> sequential None t)"

text \<open>The pose has an entry that is done and has a URL.\<close>

definition pose_completed :: "images \<Rightarrow> string \<Rightarrow> bool" where
  "pose_completed m pose = (case map_of m pose of None \<Rightarrow> False | Some img \<Rightarrow> completed img)"

text \<open>What \<^verbatim>\<open>processPose\<close> and the timer after it contribute to the trace.\<close>

definition pose_trace ::
  "string \<Rightarrow> string \<Rightarrow> (string \<Rightarrow> string) \<Rightarrow> (string \<Rightarrow> nat \<Rightarrow> api_outcome) \<Rightarrow> string
     \<Rightarrow> trace_item list" where
  "pose_trace uploaded baseModel promptFor api pose =
     [RequestStart pose]
     @ map RequestEvent
         (fst (generateCharacterImage [uploaded, baseModel] (promptFor pose) (api pose)))
     @ [RequestEnd pose, Timeout 1000]"

section \<open>Substrings and the data URL pattern\<close>

lemma strip_prefix_Some_iff: "strip_prefix p s = Some t \<longleftrightarrow> s = p @ t"
  by (induction p s rule: strip_prefix.induct) auto

lemma str_includes_iff: "str_includes s p \<longleftrightarrow> (\<exists>a b. s = a @ p @ b)"
proof (induction s)
  case Nil
  then show ?case by auto
next
  case (Cons c cs)
  have "(\<exists>a b. c # cs = a @ p @ b) \<longleftrightarrow> (\<exists>b. c # cs = p @ b) \<or> (\<exists>a b. cs = a @ p @ b)"
  proof
    assume "\<exists>a b. c # cs = a @ p @ b"
    then obtain a b where ab: "c # cs = a @ p @ b" by blast
    show "(\<exists>b. c # cs = p @ b) \<or> (\<exists>a b. cs = a @ p @ b)"
    proof (cases a)
      case Nil
      with ab show ?thesis by auto
    next
      case (Cons x xs)
      with ab have "cs = xs @ p @ b" by simp
      then show ?thesis by blast
    qed
  next
    assume "(\<exists>b. c # cs = p @ b) \<or> (\<exists>a b. cs = a @ p @ b)"
    then show "\<exists>a b. c # cs = a @ p @ b"
    proof
      assume "\<exists>b. c # cs = p @ b"
      then obtain b where "c # cs = [] @ p @ b" by auto
      then show ?thesis by blast
    next
      assume "\<exists>a b. cs = a @ p @ b"
      then obtain a b where "c # cs = (c # a) @ p @ b" by auto
      then show ?thesis by blast
    qed
  qed
  moreover have "strip_prefix p (c # cs) \<noteq> None \<longleftrightarrow> (\<exists>b. c # cs = p @ b)"
    using strip_prefix_Some_iff [of p "c # cs"] by auto
  ultimately show ?case using Cons.IH by simp
qed

lemma not_word_semicolon: "\<not> is_word_char CHR '';''"
  by (simp add: is_word_char_def)

lemma match_data_url_iff:
  "match_data_url u = Some (m, d) \<longleftrightarrow>
     (\<exists>w. u = ''data:image/'' @ w @ '';base64,'' @ d \<and> w \<noteq> [] \<and> (\<forall>c \<in> set w. is_word_char c)
          \<and> m = ''image/'' @ w \<and> \<not> has_line_terminator d)"
proof
  assume "match_data_url u = Some (m, d)"
  then obtain t where t: "strip_prefix ''data:image/'' u = Some t"
    and w: "takeWhile is_word_char t \<noteq> []"
    and r: "strip_prefix '';base64,'' (dropWhile is_word_char t) = Some d"
    and d: "\<not> has_line_terminator d" and m: "m = ''image/'' @ takeWhile is_word_char t"
    by (auto simp: match_data_url_def Let_def split: option.splits if_splits)
  let ?w = "takeWhile is_word_char t"
  have "t = ?w @ dropWhile is_word_char t" by simp
  also have "dropWhile is_word_char t = '';base64,'' @ d"
    using r by (simp only: strip_prefix_Some_iff)
  finally have "t = ?w @ '';base64,'' @ d" .
  moreover have "u = ''data:image/'' @ t" using t by (simp only: strip_prefix_Some_iff)
  ultimately have "u = ''data:image/'' @ ?w @ '';base64,'' @ d" by simp
  moreover have "\<forall>c \<in> set ?w. is_word_char c" by (auto dest: set_takeWhileD)
  ultimately show "\<exists>w. u = ''data:image/'' @ w @ '';base64,'' @ d \<and> w \<noteq> [] \<and> (\<forall>c \<in> set w. is_word_char c)
          \<and> m = ''image/'' @ w \<and> \<not> has_line_terminator d"
    using w d m by blast
next
  assume "\<exists>w. u = ''data:image/'' @ w @ '';base64,'' @ d \<and> w \<noteq> [] \<and> (\<forall>c \<in> set w. is_word_char c)
          \<and> m = ''image/'' @ w \<and> \<not> has_line_terminator d"
  then obtain w where u: "u = ''data:image/'' @ (w @ '';base64,'' @ d)" and w: "w \<noteq> []"
    and ww: "\<forall>c \<in> set w. is_word_char c" and m: "m = ''image/'' @ w" and d: "\<not> has_line_terminator d"
    by auto
  have t: "strip_prefix ''data:image/'' u = Some (w @ '';base64,'' @ d)"
    unfolding u by (simp only: strip_prefix_Some_iff)
  have tw: "takeWhile is_word_char (w @ '';base64,'' @ d) = w"
    using ww not_word_semicolon by simp
  have dw: "dropWhile is_word_char (w @ '';base64,'' @ d) = '';base64,'' @ d"
    using ww not_word_semicolon by simp
  have r: "strip_prefix '';base64,'' ('';base64,'' @ d) = Some d"
    by (simp only: strip_prefix_Some_iff)
  show "match_data_url u = Some (m, d)"
    using w d by (simp only: match_data_url_def t option.case Let_def tw dw r m if_False)
qed

section \<open>Unfolding the retry loop\<close>

text \<open>The loop starts at attempt 1 and \<open>maxRetries\<close> is 3, so three unfoldings reach its end.\<close>

lemma retry_loop_step:
  "1 \<le> a \<Longrightarrow> a \<le> 3 \<Longrightarrow>
   retry_loop k req api a =
     (case try_block (api a) of
        Inr v \<Rightarrow> ([ApiCall a req], Inr v)
      | Inl e \<Rightarrow>
          if isRetryableError (errorMessage e) \<and> a < 3
          then after [ApiCall a req, Sleep (2000 * 2 ^ (a - 1))] (retry_loop k req api (a + 1))
          else ([ApiCall a req], Inl (rethrown k e)))"
  by (subst retry_loop.simps)
     (simp add: maxRetries_def initialDelay_def catch_block_def split: sum.splits)

lemma retry_loop_3:
  "retry_loop k req api 3 =
     (case try_block (api 3) of
        Inr v \<Rightarrow> ([ApiCall 3 req], Inr v)
      | Inl e \<Rightarrow> ([ApiCall 3 req], Inl (rethrown k e)))"
  by (subst retry_loop.simps)
     (simp add: maxRetries_def catch_block_def split: sum.splits)

lemma retry_loop_2:
  "retry_loop k req api 2 =
     (case try_block (api 2) of
        Inr v \<Rightarrow> ([ApiCall 2 req], Inr v)
      | Inl e \<Rightarrow>
          if isRetryableError (errorMessage e)
          then after [ApiCall 2 req, Sleep 4000] (retry_loop k req api 3)
          else ([ApiCall 2 req], Inl (rethrown k e)))"
  by (subst retry_loop.simps)
     (simp add: maxRetries_def initialDelay_def catch_block_def split: sum.splits)

lemma retry_loop_1:
  "retry_loop k req api (Suc 0) =
     (case try_block (api (Suc 0)) of
        Inr v \<Rightarrow> ([ApiCall (Suc 0) req], Inr v)
      | Inl e \<Rightarrow>
          if isRetryableError (errorMessage e)
          then after [ApiCall (Suc 0) req, Sleep 2000] (retry_loop k req api 2)
          else ([ApiCall (Suc 0) req], Inl (rethrown k e)))"
proof -
  have two: "Suc (Suc 0) = 2" by simp
  show ?thesis
    by (subst retry_loop.simps)
       (simp add: maxRetries_def initialDelay_def catch_block_def two split: sum.splits)
qed

lemma retry_loop_shape:
  "fst (retry_loop k req api 1) \<in>
     {[ApiCall 1 req],
      [ApiCall 1 req, Sleep 2000, ApiCall 2 req],
      [ApiCall 1 req, Sleep 2000, ApiCall 2 req, Sleep 4000, ApiCall 3 req]}"
  by (simp add: retry_loop_1 retry_loop_2 retry_loop_3 after_def split: sum.splits)

lemma retry_loop_resolved:
  "snd (retry_loop k req api 1) = Inr u \<Longrightarrow>
   \<exists>n. 1 \<le> n \<and> n \<le> 3 \<and> try_block (api n) = Inr u"
  by (auto simp add: retry_loop_1 retry_loop_2 retry_loop_3 after_def split: sum.splits if_splits
      intro: exI [of _ 1] exI [of _ 2] exI [of _ 3])

lemma try_block_Inr:
  "try_block out = Inr u \<longleftrightarrow>
   (\<exists>r p b. out = Responds r \<and> imagePartFromResponse r = Some p \<and> inlineData p = Some b
      \<and> u = data_url b)"
  by (auto simp: try_block_def split: api_outcome.splits option.splits)

lemma try_block_no_image:
  "imagePartFromResponse r = None \<Longrightarrow>
   try_block (Responds r) = Inl (ErrorObj (text_instead_message r))"
  by (simp add: try_block_def)

lemma find_first:
  "\<forall>q \<in> set before. \<not> P q \<Longrightarrow> P p \<Longrightarrow> find P (before @ p # rest) = Some p"
  by (induction before) auto

lemma imageParts_Inl:
  "(\<exists>u \<in> set urls. match_data_url u = None) \<longleftrightarrow> imageParts k urls = Inl (invalid_url_message k)"
  by (induction urls) (auto split: option.splits sum.splits)

lemma character_events:
  "fst (generateCharacterImage urls prompt api) = [] \<or>
   (\<exists>req. fst (generateCharacterImage urls prompt api) \<in>
     {[ApiCall 1 req],
      [ApiCall 1 req, Sleep 2000, ApiCall 2 req],
      [ApiCall 1 req, Sleep 2000, ApiCall 2 req, Sleep 4000, ApiCall 3 req]})"
proof (cases "imageParts CharacterImage urls")
  case (Inl e)
  then show ?thesis by (simp add: generateCharacterImage_def)
next
  case (Inr ps)
  then have "fst (generateCharacterImage urls prompt api)
             = fst (retry_loop CharacterImage (ps, prompt) api 1)"
    by (simp add: generateCharacterImage_def)
  then show ?thesis using retry_loop_shape [of CharacterImage "(ps, prompt)" api] by metis
qed

lemma scene_events:
  "fst (generateSceneImage ar urls sp st api) = [] \<or>
   (\<exists>req. fst (generateSceneImage ar urls sp st api) \<in>
     {[ApiCall 1 req],
      [ApiCall 1 req, Sleep 2000, ApiCall 2 req],
      [ApiCall 1 req, Sleep 2000, ApiCall 2 req, Sleep 4000, ApiCall 3 req]})"
proof (cases "imageParts SceneImage urls")
  case (Inl e)
  then show ?thesis by (simp add: generateSceneImage_def)
next
  case (Inr ps)
  then obtain req where "fst (generateSceneImage ar urls sp st api)
             = fst (retry_loop SceneImage req api 1)"
    by (simp add: generateSceneImage_def Let_def)
  then show ?thesis using retry_loop_shape [of SceneImage req api] by metis
qed

lemma events_calls:
  "es = [] \<or> (\<exists>req. es \<in>
     {[ApiCall 1 req],
      [ApiCall 1 req, Sleep 2000, ApiCall 2 req],
      [ApiCall 1 req, Sleep 2000, ApiCall 2 req, Sleep 4000, ApiCall 3 req]})
   \<Longrightarrow> length (filter is_ApiCall es) \<le> 3"
  by auto

lemma character_third_failure:
  assumes "api_calls (generateCharacterImage urls prompt api) = 3" and "isl (try_block (api 3))"
  shows "isl (snd (generateCharacterImage urls prompt api))"
proof (cases "imageParts CharacterImage urls")
  case (Inl e)
  then show ?thesis by (simp add: generateCharacterImage_def)
next
  case (Inr ps)
  then have g: "generateCharacterImage urls prompt api = retry_loop CharacterImage (ps, prompt) api 1"
    by (simp add: generateCharacterImage_def)
  show ?thesis using assms unfolding g
    by (auto simp add: api_calls_def retry_loop_1 retry_loop_2 retry_loop_3 after_def isl_def
        split: sum.splits if_splits)
qed

lemma scene_third_failure:
  assumes "api_calls (generateSceneImage ar urls sp st api) = 3" and "isl (try_block (api 3))"
  shows "isl (snd (generateSceneImage ar urls sp st api))"
proof (cases "imageParts SceneImage urls")
  case (Inl e)
  then show ?thesis by (simp add: generateSceneImage_def)
next
  case (Inr ps)
  then obtain req where g: "generateSceneImage ar urls sp st api = retry_loop SceneImage req api 1"
    by (simp add: generateSceneImage_def Let_def)
  show ?thesis using assms unfolding g
    by (auto simp add: api_calls_def retry_loop_1 retry_loop_2 retry_loop_3 after_def isl_def
        split: sum.splits if_splits)
qed


section \<open>Retries and backoff\<close>

lemma loop_first_call: "\<exists>rest. fst (retry_loop k rq api 1) = ApiCall 1 rq # rest"
  by (simp add: retry_loop_1 after_def split: sum.splits)

lemma loop_retry_once:
  assumes "try_block (api 1) = Inl e1" and "isRetryableError (errorMessage e1)"
  shows "take 3 (fst (retry_loop k rq api 1)) = [ApiCall 1 rq, Sleep 2000, ApiCall 2 rq]"
  using assms by (simp add: retry_loop_1 retry_loop_2 after_def split: sum.splits)

lemma loop_retry_twice:
  assumes "try_block (api 1) = Inl e1" and "isRetryableError (errorMessage e1)"
    and "try_block (api 2) = Inl e2" and "isRetryableError (errorMessage e2)"
  shows "retry_loop k rq api 1
         = ([ApiCall 1 rq, Sleep 2000, ApiCall 2 rq, Sleep 4000, ApiCall 3 rq],
            (case try_block (api 3) of Inr v \<Rightarrow> Inr v | Inl e3 \<Rightarrow> Inl (rethrown k e3)))"
  using assms by (simp add: retry_loop_1 retry_loop_2 retry_loop_3 after_def split: sum.splits)

lemma character_is_loop:
  "imageParts CharacterImage urls = Inr ps \<Longrightarrow>
   generateCharacterImage urls prompt api = retry_loop CharacterImage (ps, prompt) api 1"
  by (simp add: generateCharacterImage_def)

lemma scene_is_loop:
  "imageParts SceneImage urls = Inr ps \<Longrightarrow>
   generateSceneImage ar urls sp st api
   = retry_loop SceneImage
       (case match_data_url ar of Some p \<Rightarrow> ps @ [p] | None \<Rightarrow> ps, scene_prompt sp st) api 1"
  by (simp add: generateSceneImage_def Let_def)

lemma loop_retries:
  "(\<exists>rest. fst (retry_loop k rq api 1) = ApiCall 1 rq # rest)
   \<and> (try_block (api 1) = Inl ea \<and> isRetryableError (errorMessage ea)
      \<longrightarrow> take 3 (fst (retry_loop k rq api 1)) = [ApiCall 1 rq, Sleep 2000, ApiCall 2 rq])
   \<and> (try_block (api 1) = Inl ea \<and> isRetryableError (errorMessage ea)
      \<and> try_block (api 2) = Inl eb \<and> isRetryableError (errorMessage eb)
      \<longrightarrow> fst (retry_loop k rq api 1)
            = [ApiCall 1 rq, Sleep 2000, ApiCall 2 rq, Sleep 4000, ApiCall 3 rq]
          \<and> (isl (try_block (api 3)) \<longrightarrow> isl (snd (retry_loop k rq api 1))))"
proof (intro conjI impI)
  show "\<exists>rest. fst (retry_loop k rq api 1) = ApiCall 1 rq # rest"
    by (rule loop_first_call)
next
  assume "try_block (api 1) = Inl ea \<and> isRetryableError (errorMessage ea)"
  then show "take 3 (fst (retry_loop k rq api 1)) = [ApiCall 1 rq, Sleep 2000, ApiCall 2 rq]"
    using loop_retry_once by blast
next
  assume "try_block (api 1) = Inl ea \<and> isRetryableError (errorMessage ea)
      \<and> try_block (api 2) = Inl eb \<and> isRetryableError (errorMessage eb)"
  then have "retry_loop k rq api 1
         = ([ApiCall 1 rq, Sleep 2000, ApiCall 2 rq, Sleep 4000, ApiCall 3 rq],
            (case try_block (api 3) of Inr v \<Rightarrow> Inr v | Inl e3 \<Rightarrow> Inl (rethrown k e3)))"
    using loop_retry_twice by blast
  then show "fst (retry_loop k rq api 1)
            = [ApiCall 1 rq, Sleep 2000, ApiCall 2 rq, Sleep 4000, ApiCall 3 rq]"
    by simp
next
  assume "try_block (api 1) = Inl ea \<and> isRetryableError (errorMessage ea)
      \<and> try_block (api 2) = Inl eb \<and> isRetryableError (errorMessage eb)"
    and three: "isl (try_block (api 3))"
  then have "retry_loop k rq api 1
         = ([ApiCall 1 rq, Sleep 2000, ApiCall 2 rq, Sleep 4000, ApiCall 3 rq],
            (case try_block (api 3) of Inr v \<Rightarrow> Inr v | Inl e3 \<Rightarrow> Inl (rethrown k e3)))"
    using loop_retry_twice by blast
  then show "isl (snd (retry_loop k rq api 1))"
    using three by (auto simp: isl_def)
qed

text \<open>
  C1. Whatever the arguments and whatever the API does, \<^verbatim>\<open>generateCharacterImage\<close> and
  \<^verbatim>\<open>generateSceneImage\<close> call the API at most 3 times, and what they do is one of: no call
  (an argument was rejected), attempt 1 alone, attempts 1 and 2 with a wait of 2000 ms
  between them, or attempts 1, 2 and 3 with waits of 2000 ms and then 4000 ms. After a
  failed attempt \<open>a < 3\<close> whose error is retryable the loop waits \<open>2000 * 2 ^ (a - 1)\<close> ms
  and goes on with attempt \<open>a + 1\<close>. When attempt 3 fails there is no further call and the
  promise is rejected.
  Each function, once its image arguments are accepted, is this loop started at attempt 1
  on its own request: it makes attempt 1; after a retryable failure of attempt 1 it waits
  2000 ms and makes attempt 2; after a retryable failure of attempt 2 it waits 4000 ms and
  makes attempt 3, which is the last call, and rejects when that fails too.
\<close>

theorem retry_three_attempts_doubling_delay:
  "api_calls (generateCharacterImage urls prompt api) \<le> 3
   \<and> api_calls (generateSceneImage ar urls sp st api) \<le> 3
   \<and> (fst (generateCharacterImage urls prompt api) = [] \<or>
      (\<exists>req. fst (generateCharacterImage urls prompt api) \<in>
        {[ApiCall 1 req],
         [ApiCall 1 req, Sleep 2000, ApiCall 2 req],
         [ApiCall 1 req, Sleep 2000, ApiCall 2 req, Sleep 4000, ApiCall 3 req]}))
   \<and> (fst (generateSceneImage ar urls sp st api) = [] \<or>
      (\<exists>req. fst (generateSceneImage ar urls sp st api) \<in>
        {[ApiCall 1 req],
         [ApiCall 1 req, Sleep 2000, ApiCall 2 req],
         [ApiCall 1 req, Sleep 2000, ApiCall 2 req, Sleep 4000, ApiCall 3 req]}))
   \<and> (1 \<le> a \<and> a < 3 \<and> try_block (api a) = Inl e \<and> isRetryableError (errorMessage e)
        \<longrightarrow> retry_loop k rq api a
            = after [ApiCall a rq, Sleep (2000 * 2 ^ (a - 1))] (retry_loop k rq api (a + 1)))
   \<and> (isl (try_block (api 3))
        \<longrightarrow> fst (retry_loop k rq api 3) = [ApiCall 3 rq] \<and> isl (snd (retry_loop k rq api 3)))
   \<and> (api_calls (generateCharacterImage urls prompt api) = 3 \<and> isl (try_block (api 3))
        \<longrightarrow> isl (snd (generateCharacterImage urls prompt api)))
   \<and> (api_calls (generateSceneImage ar urls sp st api) = 3 \<and> isl (try_block (api 3))
        \<longrightarrow> isl (snd (generateSceneImage ar urls sp st api)))
   \<and> (imageParts CharacterImage urls = Inr ps
        \<longrightarrow> generateCharacterImage urls prompt api
              = retry_loop CharacterImage (ps, prompt) api 1
            \<and> (\<exists>rest. fst (generateCharacterImage urls prompt api)
                        = ApiCall 1 (ps, prompt) # rest)
            \<and> (try_block (api 1) = Inl ea \<and> isRetryableError (errorMessage ea)
               \<longrightarrow> take 3 (fst (generateCharacterImage urls prompt api))
                     = [ApiCall 1 (ps, prompt), Sleep 2000, ApiCall 2 (ps, prompt)])
            \<and> (try_block (api 1) = Inl ea \<and> isRetryableError (errorMessage ea)
                \<and> try_block (api 2) = Inl eb \<and> isRetryableError (errorMessage eb)
               \<longrightarrow> fst (generateCharacterImage urls prompt api)
                     = [ApiCall 1 (ps, prompt), Sleep 2000, ApiCall 2 (ps, prompt),
                        Sleep 4000, ApiCall 3 (ps, prompt)]
                   \<and> (isl (try_block (api 3))
                      \<longrightarrow> isl (snd (generateCharacterImage urls prompt api)))))
   \<and> (imageParts SceneImage urls = Inr ps
        \<and> srq = (case match_data_url ar of Some p \<Rightarrow> ps @ [p] | None \<Rightarrow> ps,
                  scene_prompt sp st)
        \<longrightarrow> generateSceneImage ar urls sp st api = retry_loop SceneImage srq api 1
            \<and> (\<exists>rest. fst (generateSceneImage ar urls sp st api) = ApiCall 1 srq # rest)
            \<and> (try_block (api 1) = Inl ea \<and> isRetryableError (errorMessage ea)
               \<longrightarrow> take 3 (fst (generateSceneImage ar urls sp st api))
                     = [ApiCall 1 srq, Sleep 2000, ApiCall 2 srq])
            \<and> (try_block (api 1) = Inl ea \<and> isRetryableError (errorMessage ea)
                \<and> try_block (api 2) = Inl eb \<and> isRetryableError (errorMessage eb)
               \<longrightarrow> fst (generateSceneImage ar urls sp st api)
                     = [ApiCall 1 srq, Sleep 2000, ApiCall 2 srq, Sleep 4000, ApiCall 3 srq]
                   \<and> (isl (try_block (api 3))
                      \<longrightarrow> isl (snd (generateSceneImage ar urls sp st api)))))"
proof -
  have c1: "api_calls (generateCharacterImage urls prompt api) \<le> 3"
    unfolding api_calls_def by (rule events_calls) (rule character_events)
  have c2: "api_calls (generateSceneImage ar urls sp st api) \<le> 3"
    unfolding api_calls_def by (rule events_calls) (rule scene_events)
  note c3 = character_events [of urls prompt api]
  note c4 = scene_events [of ar urls sp st api]
  have c5: "1 \<le> a \<and> a < 3 \<and> try_block (api a) = Inl e \<and> isRetryableError (errorMessage e)
        \<longrightarrow> retry_loop k rq api a
            = after [ApiCall a rq, Sleep (2000 * 2 ^ (a - 1))] (retry_loop k rq api (a + 1))"
    by (simp add: retry_loop_step)
  have c6: "isl (try_block (api 3))
        \<longrightarrow> fst (retry_loop k rq api 3) = [ApiCall 3 rq] \<and> isl (snd (retry_loop k rq api 3))"
    by (auto simp add: retry_loop_3 isl_def)
  have c7: "api_calls (generateCharacterImage urls prompt api) = 3 \<and> isl (try_block (api 3))
        \<longrightarrow> isl (snd (generateCharacterImage urls prompt api))"
    using character_third_failure [of urls prompt api] by blast
  have c8: "api_calls (generateSceneImage ar urls sp st api) = 3 \<and> isl (try_block (api 3))
        \<longrightarrow> isl (snd (generateSceneImage ar urls sp st api))"
    using scene_third_failure [of ar urls sp st api] by blast
  have c9: "imageParts CharacterImage urls = Inr ps
        \<longrightarrow> generateCharacterImage urls prompt api
              = retry_loop CharacterImage (ps, prompt) api 1
            \<and> (\<exists>rest. fst (generateCharacterImage urls prompt api)
                        = ApiCall 1 (ps, prompt) # rest)
            \<and> (try_block (api 1) = Inl ea \<and> isRetryableError (errorMessage ea)
               \<longrightarrow> take 3 (fst (generateCharacterImage urls prompt api))
                     = [ApiCall 1 (ps, prompt), Sleep 2000, ApiCall 2 (ps, prompt)])
            \<and> (try_block (api 1) = Inl ea \<and> isRetryableError (errorMessage ea)
                \<and> try_block (api 2) = Inl eb \<and> isRetryableError (errorMessage eb)
               \<longrightarrow> fst (generateCharacterImage urls prompt api)
                     = [ApiCall 1 (ps, prompt), Sleep 2000, ApiCall 2 (ps, prompt),
                        Sleep 4000, ApiCall 3 (ps, prompt)]
                   \<and> (isl (try_block (api 3))
                      \<longrightarrow> isl (snd (generateCharacterImage urls prompt api))))"
  proof
    assume "imageParts CharacterImage urls = Inr ps"
    then have g: "generateCharacterImage urls prompt api
                  = retry_loop CharacterImage (ps, prompt) api 1"
      by (rule character_is_loop)
    show "generateCharacterImage urls prompt api
              = retry_loop CharacterImage (ps, prompt) api 1
            \<and> (\<exists>rest. fst (generateCharacterImage urls prompt api)
                        = ApiCall 1 (ps, prompt) # rest)
            \<and> (try_block (api 1) = Inl ea \<and> isRetryableError (errorMessage ea)
               \<longrightarrow> take 3 (fst (generateCharacterImage urls prompt api))
                     = [ApiCall 1 (ps, prompt), Sleep 2000, ApiCall 2 (ps, prompt)])
            \<and> (try_block (api 1) = Inl ea \<and> isRetryableError (errorMessage ea)
                \<and> try_block (api 2) = Inl eb \<and> isRetryableError (errorMessage eb)
               \<longrightarrow> fst (generateCharacterImage urls prompt api)
                     = [ApiCall 1 (ps, prompt), Sleep 2000, ApiCall 2 (ps, prompt),
                        Sleep 4000, ApiCall 3 (ps, prompt)]
                   \<and> (isl (try_block (api 3))
                      \<longrightarrow> isl (snd (generateCharacterImage urls prompt api))))"
      unfolding g by (rule conjI [OF refl loop_retries])
  qed
  have c10: "imageParts SceneImage urls = Inr ps
        \<and> srq = (case match_data_url ar of Some p \<Rightarrow> ps @ [p] | None \<Rightarrow> ps,
                  scene_prompt sp st)
        \<longrightarrow> generateSceneImage ar urls sp st api = retry_loop SceneImage srq api 1
            \<and> (\<exists>rest. fst (generateSceneImage ar urls sp st api) = ApiCall 1 srq # rest)
            \<and> (try_block (api 1) = Inl ea \<and> isRetryableError (errorMessage ea)
               \<longrightarrow> take 3 (fst (generateSceneImage ar urls sp st api))
                     = [ApiCall 1 srq, Sleep 2000, ApiCall 2 srq])
            \<and> (try_block (api 1) = Inl ea \<and> isRetryableError (errorMessage ea)
                \<and> try_block (api 2) = Inl eb \<and> isRetryableError (errorMessage eb)
               \<longrightarrow> fst (generateSceneImage ar urls sp st api)
                     = [ApiCall 1 srq, Sleep 2000, ApiCall 2 srq, Sleep 4000, ApiCall 3 srq]
                   \<and> (isl (try_block (api 3))
                      \<longrightarrow> isl (snd (generateSceneImage ar urls sp st api))))"
  proof
    assume h: "imageParts SceneImage urls = Inr ps
        \<and> srq = (case match_data_url ar of Some p \<Rightarrow> ps @ [p] | None \<Rightarrow> ps,
                  scene_prompt sp st)"
    then have g: "generateSceneImage ar urls sp st api = retry_loop SceneImage srq api 1"
      using scene_is_loop [of urls ps ar sp st api] by simp
    show "generateSceneImage ar urls sp st api = retry_loop SceneImage srq api 1
            \<and> (\<exists>rest. fst (generateSceneImage ar urls sp st api) = ApiCall 1 srq # rest)
            \<and> (try_block (api 1) = Inl ea \<and> isRetryableError (errorMessage ea)
               \<longrightarrow> take 3 (fst (generateSceneImage ar urls sp st api))
                     = [ApiCall 1 srq, Sleep 2000, ApiCall 2 srq])
            \<and> (try_block (api 1) = Inl ea \<and> isRetryableError (errorMessage ea)
                \<and> try_block (api 2) = Inl eb \<and> isRetryableError (errorMessage eb)
               \<longrightarrow> fst (generateSceneImage ar urls sp st api)
                     = [ApiCall 1 srq, Sleep 2000, ApiCall 2 srq, Sleep 4000, ApiCall 3 srq]
                   \<and> (isl (try_block (api 3))
                      \<longrightarrow> isl (snd (generateSceneImage ar urls sp st api))))"
      unfolding g by (rule conjI [OF refl loop_retries])
  qed
  show ?thesis
    by (rule conjI [OF c1 conjI [OF c2 conjI [OF c3 conjI [OF c4 conjI [OF c5 conjI [OF c6
          conjI [OF c7 conjI [OF c8 conjI [OF c9 c10]]]]]]]]])
qed

lemma xhr_retryable: "isRetryableError ''xhr error''"
  by (simp add: isRetryableError_def)

lemma png_parts: "imageParts k [''data:image/png;base64,AAAA''] = Inr [(''image/png'', ''AAAA'')]"
  by (simp add: match_data_url_def is_word_char_def has_line_terminator_def)

lemma grey_match:
  "match_data_url ''data:image/png;base64,GREY'' = Some (''image/png'', ''GREY'')"
  by (simp add: match_data_url_def is_word_char_def has_line_terminator_def)

theorem retry_three_attempts_doubling_delay_witness:
  "imageParts CharacterImage [''data:image/png;base64,AAAA''] = Inr [(''image/png'', ''AAAA'')]
   \<and> imageParts SceneImage [''data:image/png;base64,AAAA''] = Inr [(''image/png'', ''AAAA'')]
   \<and> try_block (Throws (ErrorObj ''xhr error'')) = Inl (ErrorObj ''xhr error'')
   \<and> isRetryableError (errorMessage (ErrorObj ''xhr error''))
   \<and> fst (generateCharacterImage [''data:image/png;base64,AAAA''] ''pose''
          (\<lambda>n. Throws (ErrorObj ''xhr error'')))
     = [ApiCall 1 ([(''image/png'', ''AAAA'')], ''pose''), Sleep 2000,
        ApiCall 2 ([(''image/png'', ''AAAA'')], ''pose''), Sleep 4000,
        ApiCall 3 ([(''image/png'', ''AAAA'')], ''pose'')]
   \<and> isl (snd (generateCharacterImage [''data:image/png;base64,AAAA''] ''pose''
          (\<lambda>n. Throws (ErrorObj ''xhr error''))))
   \<and> fst (generateSceneImage ''data:image/png;base64,GREY'' [''data:image/png;base64,AAAA'']
          ''beach'' ''clay'' (\<lambda>n. Throws (ErrorObj ''xhr error'')))
     = [ApiCall 1 ([(''image/png'', ''AAAA''), (''image/png'', ''GREY'')],
                   scene_prompt ''beach'' ''clay''), Sleep 2000,
        ApiCall 2 ([(''image/png'', ''AAAA''), (''image/png'', ''GREY'')],
                   scene_prompt ''beach'' ''clay''), Sleep 4000,
        ApiCall 3 ([(''image/png'', ''AAAA''), (''image/png'', ''GREY'')],
                   scene_prompt ''beach'' ''clay'')]
   \<and> isl (snd (generateSceneImage ''data:image/png;base64,GREY''
          [''data:image/png;base64,AAAA''] ''beach'' ''clay''
          (\<lambda>n. Throws (ErrorObj ''xhr error''))))"
proof -
  let ?e = "ErrorObj ''xhr error''"
  let ?api = "\<lambda>n::nat. Throws ?e"
  let ?urls = "[''data:image/png;base64,AAAA'']"
  let ?ps = "[(''image/png'', ''AAAA'')]"
  let ?srq = "([(''image/png'', ''AAAA''), (''image/png'', ''GREY'')],
               scene_prompt ''beach'' ''clay'')"
  have vc: "imageParts CharacterImage ?urls = Inr ?ps" by (rule png_parts)
  have vs: "imageParts SceneImage ?urls = Inr ?ps" by (rule png_parts)
  have t: "try_block (Throws ?e) = Inl ?e" by (simp add: try_block_def)
  have r: "isRetryableError (errorMessage ?e)" by (simp add: errorMessage_def xhr_retryable)
  have two: "try_block (?api 1) = Inl ?e \<and> isRetryableError (errorMessage ?e)
      \<and> try_block (?api 2) = Inl ?e \<and> isRetryableError (errorMessage ?e)"
    using t r by simp
  have three: "isl (try_block (?api 3))" using t by simp
  have hs: "imageParts SceneImage ?urls = Inr ?ps
      \<and> ?srq = (case match_data_url ''data:image/png;base64,GREY'' of
                  Some p \<Rightarrow> ?ps @ [p] | None \<Rightarrow> ?ps, scene_prompt ''beach'' ''clay'')"
    using vs by (simp add: grey_match)
  note T = retry_three_attempts_doubling_delay
    [where urls = ?urls and prompt = "''pose''" and api = ?api and ps = ?ps
       and ar = "''data:image/png;base64,GREY''" and sp = "''beach''" and st = "''clay''"
       and srq = ?srq and ea = ?e and eb = ?e]
  note C = T [THEN conjunct2, THEN conjunct2, THEN conjunct2, THEN conjunct2, THEN conjunct2,
      THEN conjunct2, THEN conjunct2, THEN conjunct2, THEN conjunct1, THEN mp, OF vc,
      THEN conjunct2, THEN conjunct2, THEN conjunct2, THEN mp, OF two]
  note S = T [THEN conjunct2, THEN conjunct2, THEN conjunct2, THEN conjunct2, THEN conjunct2,
      THEN conjunct2, THEN conjunct2, THEN conjunct2, THEN conjunct2, THEN mp, OF hs,
      THEN conjunct2, THEN conjunct2, THEN conjunct2, THEN mp, OF two]
  note c_trace = C [THEN conjunct1]
  note c_rejects = C [THEN conjunct2, THEN mp, OF three]
  note s_trace = S [THEN conjunct1]
  note s_rejects = S [THEN conjunct2, THEN mp, OF three]
  show ?thesis
    by (rule conjI [OF vc conjI [OF vs conjI [OF t conjI [OF r conjI [OF c_trace
          conjI [OF c_rejects conjI [OF s_trace s_rejects]]]]]]])
qed

section \<open>Classification of errors\<close>

lemma bex_five: "(\<exists>x \<in> {s1, s2, s3, s4, s5}. P x) \<longleftrightarrow> P s1 \<or> P s2 \<or> P s3 \<or> P s4 \<or> P s5"
  by blast

lemma isRetryableError_iff:
  \<open>isRetryableError msg \<longleftrightarrow>
     (\<exists>sig \<in> {''"code":500'', ''INTERNAL'', ''"code":429'', ''RESOURCE_EXHAUSTED'', ''xhr error''}.
        \<exists>a b. msg = a @ sig @ b)\<close>
  by (simp only: isRetryableError_def str_includes_iff bex_five)

text \<open>
  C2. A caught error is retryable exactly when its message text (the message of an
  \<^verbatim>\<open>Error\<close>, the JSON text of any other value) contains one of the five signatures. An
  error with none of them ends the loop at the attempt where it is caught: no wait, no
  further call, and the promise is rejected with a message for the user.
\<close>

theorem retryable_iff_signature_in_message:
  \<open>(isRetryableError (errorMessage e) \<longleftrightarrow>
      (\<exists>sig \<in> {''"code":500'', ''INTERNAL'', ''"code":429'', ''RESOURCE_EXHAUSTED'', ''xhr error''}.
         \<exists>a b. errorMessage e = a @ sig @ b))
   \<and> errorMessage (ErrorObj m) = m
   \<and> errorMessage (NonError json) = json
   \<and> (1 \<le> attempt \<and> attempt \<le> 3 \<and> try_block (api attempt) = Inl e
        \<and> \<not> isRetryableError (errorMessage e)
       \<longrightarrow> retry_loop k rq api attempt
           = ([ApiCall attempt rq],
              Inl (case e of ErrorObj m' \<Rightarrow> details_message k @ m'
                   | NonError _ \<Rightarrow> unknown_message k)))\<close>
proof -
  have c1: \<open>isRetryableError (errorMessage e) \<longleftrightarrow>
      (\<exists>sig \<in> {''"code":500'', ''INTERNAL'', ''"code":429'', ''RESOURCE_EXHAUSTED'', ''xhr error''}.
         \<exists>a b. errorMessage e = a @ sig @ b)\<close>
    by (rule isRetryableError_iff)
  have c2: "errorMessage (ErrorObj m) = m" by (simp add: errorMessage_def)
  have c3: "errorMessage (NonError json) = json" by (simp add: errorMessage_def)
  have c4: "1 \<le> attempt \<and> attempt \<le> 3 \<and> try_block (api attempt) = Inl e
        \<and> \<not> isRetryableError (errorMessage e)
       \<longrightarrow> retry_loop k rq api attempt
           = ([ApiCall attempt rq],
              Inl (case e of ErrorObj m' \<Rightarrow> details_message k @ m'
                   | NonError _ \<Rightarrow> unknown_message k))"
    by (simp add: retry_loop_step rethrown_def)
  show ?thesis by (rule conjI [OF c1 conjI [OF c2 conjI [OF c3 c4]]])
qed

lemma key_not_retryable: "\<not> isRetryableError ''API key not valid''"
  by (simp add: isRetryableError_def)

theorem retryable_iff_signature_in_message_witness:
  \<open>(1::nat) \<le> 1 \<and> (1::nat) \<le> 3
   \<and> try_block (Throws (ErrorObj ''API key not valid'')) = Inl (ErrorObj ''API key not valid'')
   \<and> \<not> isRetryableError (errorMessage (ErrorObj ''API key not valid''))
   \<and> retry_loop CharacterImage ([], ''pose'') (\<lambda>n. Throws (ErrorObj ''API key not valid'')) 1
       = ([ApiCall 1 ([], ''pose'')],
          Inl (''The AI model failed to generate an image. Details: '' @ ''API key not valid''))\<close>
proof -
  let ?e = "ErrorObj ''API key not valid''"
  let ?api = "\<lambda>n::nat. Throws ?e"
  have t: "try_block (?api 1) = Inl ?e" by (simp add: try_block_def)
  have n: "\<not> isRetryableError (errorMessage ?e)"
    by (simp add: errorMessage_def key_not_retryable)
  have h: "(1::nat) \<le> 1 \<and> (1::nat) \<le> 3 \<and> try_block (?api 1) = Inl ?e 
     \<and> \<not> isRetryableError (errorMessage ?e)"
    using t n by simp
  note T = retryable_iff_signature_in_message
      [where attempt = 1 and api = ?api and e = ?e and k = CharacterImage
         and rq = "([], ''pose'')", THEN conjunct2, THEN conjunct2, THEN conjunct2, THEN mp, OF h]
  have r: "retry_loop CharacterImage ([], ''pose'') ?api 1
       = ([ApiCall 1 ([], ''pose'')],
          Inl (''The AI model failed to generate an image. Details: '' @ ''API key not valid''))"
    unfolding T by (simp add: details_message_def)
  show ?thesis using h r by simp
qed

section \<open>Responses without an image\<close>

lemma loop_resolved_from_image:
  assumes "snd (retry_loop k rq api 1) = Inr u"
  shows "\<exists>n r p b. 1 \<le> n \<and> n \<le> 3 \<and> api n = Responds r \<and> imagePartFromResponse r = Some p
             \<and> inlineData p = Some b \<and> u = data_url b"
proof -
  from retry_loop_resolved [OF assms] obtain n where n: "1 \<le> n" "n \<le> 3"
    and t: "try_block (api n) = Inr u" by blast
  from t obtain r p b where "api n = Responds r" "imagePartFromResponse r = Some p"
    "inlineData p = Some b" "u = data_url b"
    unfolding try_block_Inr by blast
  with n show ?thesis by blast
qed

text \<open>
  C4. A response in which the first candidate has no part with \<^verbatim>\<open>inlineData\<close> (so also
  a response with no inline image at all, such as a text-only one) is turned into a thrown
  \<^verbatim>\<open>Error\<close>: whenever one of the two functions resolves, its value is the data URL built
  from a response that does have such a part, received at attempt 1, 2 or 3. At attempt 3
  a response without an image rejects the promise.
\<close>

theorem no_image_part_never_resolves:
  "(snd (generateCharacterImage urls prompt api) = Inr u
      \<longrightarrow> (\<exists>n r p b. 1 \<le> n \<and> n \<le> 3 \<and> api n = Responds r \<and> imagePartFromResponse r = Some p
             \<and> inlineData p = Some b \<and> u = data_url b))
   \<and> (snd (generateSceneImage ar urls sp st api) = Inr u
      \<longrightarrow> (\<exists>n r p b. 1 \<le> n \<and> n \<le> 3 \<and> api n = Responds r \<and> imagePartFromResponse r = Some p
             \<and> inlineData p = Some b \<and> u = data_url b))
   \<and> (imagePartFromResponse r = None
      \<longrightarrow> try_block (Responds r) = Inl (ErrorObj (text_instead_message r)))
   \<and> (api 3 = Responds r \<and> imagePartFromResponse r = None
      \<longrightarrow> retry_loop k rq api 3
          = ([ApiCall 3 rq], Inl (rethrown k (ErrorObj (text_instead_message r)))))"
proof -
  have a: "snd (generateCharacterImage urls prompt api) = Inr u
      \<longrightarrow> (\<exists>n r p b. 1 \<le> n \<and> n \<le> 3 \<and> api n = Responds r \<and> imagePartFromResponse r = Some p
             \<and> inlineData p = Some b \<and> u = data_url b)"
  proof (cases "imageParts CharacterImage urls")
    case (Inl e)
    then show ?thesis by (simp add: generateCharacterImage_def)
  next
    case (Inr ps)
    then have "generateCharacterImage urls prompt api = retry_loop CharacterImage (ps, prompt) api 1"
      by (simp add: generateCharacterImage_def)
    then show ?thesis using loop_resolved_from_image [of CharacterImage "(ps, prompt)" api u]
      by simp
  qed
  have b: "snd (generateSceneImage ar urls sp st api) = Inr u
      \<longrightarrow> (\<exists>n r p b. 1 \<le> n \<and> n \<le> 3 \<and> api n = Responds r \<and> imagePartFromResponse r = Some p
             \<and> inlineData p = Some b \<and> u = data_url b)"
  proof (cases "imageParts SceneImage urls")
    case (Inl e)
    then show ?thesis by (simp add: generateSceneImage_def)
  next
    case (Inr ps)
    then obtain req where "generateSceneImage ar urls sp st api = retry_loop SceneImage req api 1"
      by (simp add: generateSceneImage_def Let_def)
    then show ?thesis using loop_resolved_from_image [of SceneImage req api u]
      by simp
  qed
  have c: "imagePartFromResponse r = None
      \<longrightarrow> try_block (Responds r) = Inl (ErrorObj (text_instead_message r))"
    by (simp add: try_block_no_image)
  have d: "api 3 = Responds r \<and> imagePartFromResponse r = None
      \<longrightarrow> retry_loop k rq api 3
          = ([ApiCall 3 rq], Inl (rethrown k (ErrorObj (text_instead_message r))))"
    by (simp add: retry_loop_3 try_block_no_image)
  show ?thesis by (rule conjI [OF a conjI [OF b conjI [OF c d]]])
qed


theorem no_image_part_never_resolves_witness:
  "imagePartFromResponse
     \<lparr>candidates = Some [\<lparr>content = Some \<lparr>parts = Some
        [\<lparr>inlineData = None, part_text = Some ''Sorry''\<rparr>]\<rparr>\<rparr>],
      response_text = Some ''Sorry''\<rparr> = None
   \<and> retry_loop CharacterImage ([], ''pose'')
       (\<lambda>n. Responds \<lparr>candidates = Some [\<lparr>content = Some \<lparr>parts = Some
          [\<lparr>inlineData = None, part_text = Some ''Sorry''\<rparr>]\<rparr>\<rparr>],
          response_text = Some ''Sorry''\<rparr>) 3
     = ([ApiCall 3 ([], ''pose'')],
        Inl (''The AI model failed to generate an image. Details: ''
             @ ''The AI model responded with text instead of an image: ''
             @ [CHR 0x22] @ ''Sorry'' @ [CHR 0x22]))"
proof -
  let ?r = "\<lparr>candidates = Some [\<lparr>content = Some \<lparr>parts = Some
        [\<lparr>inlineData = None, part_text = Some ''Sorry''\<rparr>]\<rparr>\<rparr>],
      response_text = Some ''Sorry''\<rparr>"
  let ?api = "\<lambda>n::nat. Responds ?r"
  have none: "imagePartFromResponse ?r = None"
    by (simp add: imagePartFromResponse_def)
  have h: "?api 3 = Responds ?r \<and> imagePartFromResponse ?r = None"
    using none by simp
  note T = no_image_part_never_resolves
      [where api = ?api and r = ?r and k = CharacterImage and rq = "([], ''pose'')",
       THEN conjunct2, THEN conjunct2, THEN conjunct2, THEN mp, OF h]
  have msg: "rethrown CharacterImage (ErrorObj (text_instead_message ?r))
     = ''The AI model failed to generate an image. Details: ''
             @ ''The AI model responded with text instead of an image: ''
             @ [CHR 0x22] @ ''Sorry'' @ [CHR 0x22]"
    by (simp add: rethrown_def text_instead_message_def js_or_def errorMessage_def
        isRetryableError_def details_message_def)
  show ?thesis using none T msg by simp
qed

section \<open>Responses with an image\<close>

text \<open>
  C5. When the response to an attempt has an inline image, \<open>p\<close> being the first part with
  \<^verbatim>\<open>inlineData\<close> among the parts of the first candidate, \<^verbatim>\<open>generateCharacterImage\<close>
  resolves at that attempt with \<^verbatim>\<open>data:\<close> + mimeType + \<^verbatim>\<open>;base64,\<close> + data of that part.
\<close>

theorem inline_image_resolves_with_data_url:
  "(candidates r = Some (c # cs) \<and> content c = Some ct \<and> parts ct = Some (before @ p # rest)
      \<and> (\<forall>q \<in> set before. inlineData q = None) \<and> inlineData p = Some b
      \<and> 1 \<le> a \<and> a \<le> 3 \<and> api a = Responds r
    \<longrightarrow> retry_loop CharacterImage rq api a
        = ([ApiCall a rq],
           Inr (''data:'' @ js_template (mimeType b) @ '';base64,'' @ js_template (data b))))
   \<and> (candidates r = Some (c # cs) \<and> content c = Some ct \<and> parts ct = Some (before @ p # rest)
      \<and> (\<forall>q \<in> set before. inlineData q = None) \<and> inlineData p = Some b
      \<and> api 1 = Responds r \<and> imageParts CharacterImage urls = Inr ps
    \<longrightarrow> generateCharacterImage urls prompt api
        = ([ApiCall 1 (ps, prompt)],
           Inr (''data:'' @ js_template (mimeType b) @ '';base64,'' @ js_template (data b))))
   \<and> js_template (Some s) = s"
proof -
  have img: "imagePartFromResponse r = Some p"
    if "candidates r = Some (c # cs)" "content c = Some ct" "parts ct = Some (before @ p # rest)"
      "\<forall>q \<in> set before. inlineData q = None" "inlineData p = Some b"
    using that by (simp add: imagePartFromResponse_def find_first)
  have tb: "try_block (Responds r) = Inr (data_url b)"
    if "candidates r = Some (c # cs)" "content c = Some ct" "parts ct = Some (before @ p # rest)"
      "\<forall>q \<in> set before. inlineData q = None" "inlineData p = Some b"
    using img [OF that] that(5) by (simp add: try_block_def)
  have one: "candidates r = Some (c # cs) \<and> content c = Some ct \<and> parts ct = Some (before @ p # rest)
      \<and> (\<forall>q \<in> set before. inlineData q = None) \<and> inlineData p = Some b
      \<and> 1 \<le> a \<and> a \<le> 3 \<and> api a = Responds r
    \<longrightarrow> retry_loop CharacterImage rq api a
        = ([ApiCall a rq],
           Inr (''data:'' @ js_template (mimeType b) @ '';base64,'' @ js_template (data b)))"
    using tb by (simp add: retry_loop_step data_url_def)
  have two: "candidates r = Some (c # cs) \<and> content c = Some ct \<and> parts ct = Some (before @ p # rest)
      \<and> (\<forall>q \<in> set before. inlineData q = None) \<and> inlineData p = Some b
      \<and> api 1 = Responds r \<and> imageParts CharacterImage urls = Inr ps
    \<longrightarrow> generateCharacterImage urls prompt api
        = ([ApiCall 1 (ps, prompt)],
           Inr (''data:'' @ js_template (mimeType b) @ '';base64,'' @ js_template (data b)))"
    using tb by (simp add: generateCharacterImage_def retry_loop_1 data_url_def)
  have three: "js_template (Some s) = s" by (simp add: js_template_def)
  show ?thesis by (rule conjI [OF one conjI [OF two three]])
qed

theorem inline_image_resolves_with_data_url_witness:
  "generateCharacterImage [''data:image/png;base64,AAAA''] ''pose''
     (\<lambda>n. Responds \<lparr>candidates = Some [\<lparr>content = Some \<lparr>parts = Some
          [\<lparr>inlineData = None, part_text = Some ''Here it is''\<rparr>,
           \<lparr>inlineData = Some \<lparr>mimeType = Some ''image/png'', data = Some ''QUJD''\<rparr>,
            part_text = None\<rparr>,
           \<lparr>inlineData = Some \<lparr>mimeType = Some ''image/jpeg'', data = Some ''WFla''\<rparr>,
            part_text = None\<rparr>]\<rparr>\<rparr>],
          response_text = Some ''Here it is''\<rparr>)
   = ([ApiCall 1 ([(''image/png'', ''AAAA'')], ''pose'')], Inr ''data:image/png;base64,QUJD'')"
proof -
  let ?b = "\<lparr>mimeType = Some ''image/png'', data = Some ''QUJD''\<rparr>"
  let ?q = "\<lparr>inlineData = None, part_text = Some ''Here it is''\<rparr>"
  let ?p = "\<lparr>inlineData = Some ?b, part_text = None\<rparr>"
  let ?z = "\<lparr>inlineData = Some \<lparr>mimeType = Some ''image/jpeg'', data = Some ''WFla''\<rparr>,
            part_text = None\<rparr>"
  let ?ct = "\<lparr>parts = Some ([?q] @ ?p # [?z])\<rparr>"
  let ?c = "\<lparr>content = Some ?ct\<rparr>"
  let ?r = "\<lparr>candidates = Some (?c # []), response_text = Some ''Here it is''\<rparr>"
  let ?api = "\<lambda>n::nat. Responds ?r"
  have h: "candidates ?r = Some (?c # []) \<and> content ?c = Some ?ct
      \<and> parts ?ct = Some ([?q] @ ?p # [?z])
      \<and> (\<forall>q \<in> set [?q]. inlineData q = None) \<and> inlineData ?p = Some ?b
      \<and> ?api 1 = Responds ?r
      \<and> imageParts CharacterImage [''data:image/png;base64,AAAA'']
          = Inr [(''image/png'', ''AAAA'')]"
    by (simp add: png_parts del: imageParts.simps)
  note T = inline_image_resolves_with_data_url
      [where r = ?r and c = ?c and cs = "[]" and ct = ?ct and before = "[?q]" and p = ?p
         and rest = "[?z]" and b = ?b and api = ?api
         and urls = "[''data:image/png;base64,AAAA'']" and ps = "[(''image/png'', ''AAAA'')]"
         and prompt = "''pose''",
       THEN conjunct2, THEN conjunct1, THEN mp, OF h]
  show ?thesis using T by (simp add: js_template_def)
qed

section \<open>Arguments that are no image data URL\<close>

lemma no_match_iff:
  "match_data_url u = None \<longleftrightarrow>
   \<not> (\<exists>w d. u = ''data:image/'' @ w @ '';base64,'' @ d \<and> w \<noteq> []
          \<and> (\<forall>c \<in> set w. is_word_char c) \<and> \<not> has_line_terminator d)"
proof -
  have "match_data_url u \<noteq> None \<longleftrightarrow> (\<exists>m d. match_data_url u = Some (m, d))"
    by auto
  also have "\<dots> \<longleftrightarrow> (\<exists>w d. u = ''data:image/'' @ w @ '';base64,'' @ d \<and> w \<noteq> []
          \<and> (\<forall>c \<in> set w. is_word_char c) \<and> \<not> has_line_terminator d)"
    unfolding match_data_url_iff by blast
  finally show ?thesis by blast
qed

text \<open>
  C8. If some element of the array is not of the form
  \<^verbatim>\<open>data:image/<word>;base64,<rest>\<close> (one or more word characters, a rest without line
  terminator), both functions reject with the message about the invalid data URL format,
  with no API call and no wait: the retry loop is not entered.
\<close>

theorem invalid_data_url_rejected_before_any_call:
  "u \<in> set urls
   \<and> \<not> (\<exists>w d. u = ''data:image/'' @ w @ '';base64,'' @ d \<and> w \<noteq> []
            \<and> (\<forall>c \<in> set w. is_word_char c) \<and> \<not> has_line_terminator d)
   \<longrightarrow> generateCharacterImage urls prompt api
         = ([], Inl (''Invalid image data URL format. Expected 'data:image/...;base64,...''
                     @ [CHR 0x27]))
       \<and> generateSceneImage ar urls sp st api
         = ([], Inl (''Invalid image data URL format. Expected 'data:image/<format>;base64,<data>''
                     @ [CHR 0x27]))"
proof
  assume "u \<in> set urls
   \<and> \<not> (\<exists>w d. u = ''data:image/'' @ w @ '';base64,'' @ d \<and> w \<noteq> []
            \<and> (\<forall>c \<in> set w. is_word_char c) \<and> \<not> has_line_terminator d)"
  then have "\<exists>u \<in> set urls. match_data_url u = None"
    unfolding no_match_iff [symmetric] by blast
  then have "\<And>k. imageParts k urls = Inl (invalid_url_message k)"
    using imageParts_Inl by blast
  then show "generateCharacterImage urls prompt api
         = ([], Inl (''Invalid image data URL format. Expected 'data:image/...;base64,...''
                     @ [CHR 0x27]))
       \<and> generateSceneImage ar urls sp st api
         = ([], Inl (''Invalid image data URL format. Expected 'data:image/<format>;base64,<data>''
                     @ [CHR 0x27]))"
    by (simp add: generateCharacterImage_def generateSceneImage_def invalid_url_message_def)
qed

theorem invalid_data_url_rejected_before_any_call_witness:
  "generateCharacterImage [''data:image/png;base64,AAAA'', ''https://example.com/a.png'']
       ''pose'' (\<lambda>n. Throws (ErrorObj ''xhr error''))
     = ([], Inl (''Invalid image data URL format. Expected 'data:image/...;base64,...''
                     @ [CHR 0x27]))
   \<and> generateSceneImage ''data:image/png;base64,GREY''
       [''data:image/png;base64,AAAA'', ''https://example.com/a.png''] ''beach'' ''clay''
       (\<lambda>n. Throws (ErrorObj ''xhr error''))
     = ([], Inl (''Invalid image data URL format. Expected 'data:image/<format>;base64,<data>''
                     @ [CHR 0x27]))"
proof -
  let ?u = "''https://example.com/a.png''"
  have "match_data_url ?u = None"
    by (simp add: match_data_url_def)
  then have h: "?u \<in> set [''data:image/png;base64,AAAA'', ?u]
   \<and> \<not> (\<exists>w d. ?u = ''data:image/'' @ w @ '';base64,'' @ d \<and> w \<noteq> []
            \<and> (\<forall>c \<in> set w. is_word_char c) \<and> \<not> has_line_terminator d)"
    unfolding no_match_iff by simp
  show ?thesis
    by (rule invalid_data_url_rejected_before_any_call
      [where u = ?u and urls = "[''data:image/png;base64,AAAA'', ?u]", THEN mp, OF h])
qed

section \<open>Uploading a photo\<close>

text \<open>
  C10. \<^verbatim>\<open>handleImageUpload\<close> on a file of more than 4 * 1024 * 1024 bytes alerts, resets the
  file input and leaves the whole application state as it was. On a file of at most that
  size it stores the result of reading the file as a data URL in \<open>uploadedImage\<close>, sets
  \<open>appState\<close> to style selection and clears \<open>generatedImages\<close>, \<open>baseModelImage\<close>,
  \<open>selectedStyle\<close> and \<open>selectedDetailedStyle\<close>, all other state unchanged.
\<close>

theorem upload_rejects_files_over_4mb:
  "MAX_FILE_SIZE_BYTES = 4 * 1024 * 1024
   \<and> (file_size f > 4 * 1024 * 1024
      \<longrightarrow> handleImageUpload readAsDataURL (Some (f # others)) s
          = ([Alert ''File is too large. Please upload an image smaller than 4MB.'',
              ResetFileInput], s))
   \<and> (file_size f \<le> 4 * 1024 * 1024
      \<longrightarrow> handleImageUpload readAsDataURL (Some (f # others)) s
          = ([], s\<lparr>uploadedImage := readAsDataURL f, appState := StyleSelection,
                   generatedImages := [], baseModelImage := None, selectedStyle := None,
                   selectedDetailedStyle := None\<rparr>))"
  by (simp add: handleImageUpload_def onloadend_def MAX_FILE_SIZE_BYTES_def MAX_FILE_SIZE_MB_def)

theorem upload_rejects_files_over_4mb_witness:
  "file_size \<lparr>file_size = 4194305, file_name = ''big.png''\<rparr> > 4 * 1024 * 1024
   \<and> handleImageUpload (\<lambda>f. Some ''data:image/png;base64,AAAA'')
        (Some [\<lparr>file_size = 4194305, file_name = ''big.png''\<rparr>]) (baseModel_pending initial)
      = ([Alert ''File is too large. Please upload an image smaller than 4MB.'',
          ResetFileInput], baseModel_pending initial)
   \<and> file_size \<lparr>file_size = 4194304, file_name = ''ok.png''\<rparr> \<le> 4 * 1024 * 1024
   \<and> handleImageUpload (\<lambda>f. Some ''data:image/png;base64,AAAA'')
        (Some [\<lparr>file_size = 4194304, file_name = ''ok.png''\<rparr>]) (baseModel_pending initial)
      = ([], initial\<lparr>uploadedImage := Some ''data:image/png;base64,AAAA'',
                     appState := StyleSelection\<rparr>)"
proof -
  let ?big = "\<lparr>file_size = 4194305, file_name = ''big.png''\<rparr>"
  let ?ok = "\<lparr>file_size = 4194304, file_name = ''ok.png''\<rparr>"
  let ?rd = "\<lambda>f::File. Some ''data:image/png;base64,AAAA''"
  have hb: "file_size ?big > 4 * 1024 * 1024" by simp
  have ho: "file_size ?ok \<le> 4 * 1024 * 1024" by simp
  note B = upload_rejects_files_over_4mb
    [where f = ?big and others = "[]" and s = "baseModel_pending initial"
       and readAsDataURL = ?rd, THEN conjunct2, THEN conjunct1, THEN mp, OF hb]
  note K = upload_rejects_files_over_4mb
    [where f = ?ok and others = "[]" and s = "baseModel_pending initial"
       and readAsDataURL = ?rd, THEN conjunct2, THEN conjunct2, THEN mp, OF ho]
  have e: "(baseModel_pending initial)\<lparr>uploadedImage := Some ''data:image/png;base64,AAAA'',
              appState := StyleSelection, generatedImages := [], baseModelImage := None,
              selectedStyle := None, selectedDetailedStyle := None\<rparr>
           = initial\<lparr>uploadedImage := Some ''data:image/png;base64,AAAA'',
                     appState := StyleSelection\<rparr>"
    by (simp add: baseModel_pending_def initial_def)
  show ?thesis using hb ho B K e by simp
qed

section \<open>The generated-images map\<close>

lemma POSES_0: "POSES ! 0 \<in> set POSES"
  by (simp add: POSES_def)

lemma remainingPoses_subset: "set remainingPoses \<subseteq> set POSES"
  unfolding remainingPoses_def by (rule set_drop_subset)

lemma images_inv_Nil: "images_inv []"
  by (simp add: images_inv_def)

lemma images_inv_single: "k \<in> set POSES \<Longrightarrow> images_inv [(k, v)]"
  by (simp add: images_inv_def)

lemma images_inv_update:
  "images_inv m \<Longrightarrow> k \<in> set POSES \<Longrightarrow> images_inv (AList.update k v m)"
  unfolding images_inv_def using dom_update [of k v m] by (auto simp: distinct_update)

lemma images_inv_fold:
  "images_inv m \<Longrightarrow> set ps \<subseteq> set POSES \<Longrightarrow>
   images_inv (fold (\<lambda>pose m. AList.update pose v m) ps m)"
  by (induction ps arbitrary: m) (simp_all add: images_inv_update)

lemma step_preserves_inv:
  assumes "step s s'" and "images_inv (generatedImages s)"
  shows "images_inv (generatedImages s')"
  using assms
proof (cases rule: step.cases)
  case (upload readAsDataURL files)
  then show ?thesis using assms(2)
    by (auto simp: handleImageUpload_def onloadend_def images_inv_Nil
        split: option.splits list.splits)
next
  case base_pending
  then show ?thesis by (simp add: baseModel_pending_def images_inv_single POSES_0)
next
  case (base_settled result)
  then show ?thesis
    by (simp add: baseModel_settled_def images_inv_single POSES_0 split: sum.splits)
next
  case approve
  then show ?thesis using assms(2) remainingPoses_subset
    by (simp add: sheet_pending_def images_inv_fold)
next
  case (pose p result)
  then show ?thesis using assms(2) remainingPoses_subset
    by (auto simp add: pose_settled_def images_inv_update split: sum.splits)
next
  case reset
  then show ?thesis by (simp add: handleReset_def images_inv_Nil)
next
  case (edited editedImageUrl)
  then show ?thesis using assms(2)
    by (simp add: handleCharacterEdited_def images_inv_update POSES_0)
next
  case other
  then show ?thesis using assms(2) by simp
qed

lemma reachable_inv:
  assumes "reachable s"
  shows "images_inv (generatedImages s)"
  using assms unfolding reachable_def
proof (induction rule: rtranclp_induct)
  case base
  then show ?case by (simp add: initial_def images_inv_Nil)
next
  case (step y z)
  then show ?case using step_preserves_inv by blast
qed

lemma process_poses_steps:
  "set ps \<subseteq> set remainingPoses \<Longrightarrow> step\<^sup>*\<^sup>* s (snd (process_poses up bm pf api ps s))"
proof (induction ps arbitrary: s)
  case Nil
  then show ?case by simp
next
  case (Cons p ps)
  let ?s1 = "snd (processPose up bm pf api p s)"
  from Cons.prems have p: "p \<in> set remainingPoses" and ps: "set ps \<subseteq> set remainingPoses"
    by simp_all
  have "step s ?s1"
    unfolding processPose_def Let_def snd_conv using p by (rule step.pose)
  also have "step\<^sup>*\<^sup>* ?s1 (snd (process_poses up bm pf api ps ?s1))"
    by (rule Cons.IH [OF ps])
  finally show ?case by (simp add: Let_def)
qed

lemma handleApproveAndGenerateSheet_steps:
  "step\<^sup>*\<^sup>* s (snd (handleApproveAndGenerateSheet promptFor api s))"
proof (cases "\<not> js_truthy (uploadedImage s) \<or> \<not> js_truthy (baseModelImage s)
         \<or> selectedStyle s = None \<or> \<not> js_truthy (selectedDetailedStyle s)")
  case True
  then show ?thesis by (simp add: handleApproveAndGenerateSheet_def)
next
  case False
  let ?run = "process_poses (the (uploadedImage s)) (the (baseModelImage s)) promptFor api
                     remainingPoses (sheet_pending s)"
  have "step s (sheet_pending s)" by (rule step.approve)
  also have "step\<^sup>*\<^sup>* (sheet_pending s) (snd ?run)"
    by (rule process_poses_steps) simp
  also have "step (snd ?run) ((snd ?run)\<lparr>appState := ResultsShown\<rparr>)"
    by (rule step.other) simp
  finally show ?thesis using False
    by (simp add: handleApproveAndGenerateSheet_def Let_def)
qed

lemma generateBaseModel_steps:
  "step\<^sup>*\<^sup>* s (snd (generateBaseModel prompt api s))"
proof (cases "\<not> js_truthy (uploadedImage s) \<or> selectedStyle s = None
         \<or> \<not> js_truthy (selectedDetailedStyle s)")
  case True
  then show ?thesis by (simp add: generateBaseModel_def)
next
  case False
  let ?run = "generateCharacterImage [the (uploadedImage s)] prompt api"
  have "step\<^sup>*\<^sup>* s (baseModel_pending s)"
    by (rule r_into_rtranclp) (rule step.base_pending)
  also have "step (baseModel_pending s) (baseModel_settled (snd ?run) (baseModel_pending s))"
    by (rule step.base_settled)
  finally show ?thesis using False
    by (simp add: generateBaseModel_def Let_def)
qed

lemma reachable_trans: "reachable s \<Longrightarrow> step\<^sup>*\<^sup>* s s' \<Longrightarrow> reachable s'"
  unfolding reachable_def by (rule rtranclp_trans)

lemma reachable_step: "reachable s \<Longrightarrow> step s s' \<Longrightarrow> reachable s'"
  unfolding reachable_def by (rule rtranclp.rtrancl_into_rtrancl)

text \<open>
  C7. In every reachable state the keys of \<open>generatedImages\<close> are distinct (one record per
  key) and each is one of the six pose labels; every step that sets the map (upload, base
  model pending, done or failed, sheet pending, a pose done or failed, character edit,
  reset) keeps this, and a run of each handler leads from a reachable state to a
  reachable state.
\<close>

theorem generated_images_one_record_per_pose:
  "(reachable s \<longrightarrow>
      distinct (map fst (generatedImages s)) \<and> set (map fst (generatedImages s)) \<subseteq> set POSES)
   \<and> (images_inv (generatedImages s) \<and> step s s' \<longrightarrow> images_inv (generatedImages s'))
   \<and> (images_inv m \<longleftrightarrow> distinct (map fst m) \<and> set (map fst m) \<subseteq> set POSES)
   \<and> length POSES = 6
   \<and> (reachable s \<longrightarrow>
        reachable (snd (generateBaseModel prompt api1 s))
        \<and> reachable (snd (handleApproveAndGenerateSheet promptFor api s))
        \<and> reachable (handleCharacterEdited editedImageUrl s)
        \<and> reachable (handleReset s)
        \<and> reachable (snd (handleImageUpload readAsDataURL files s)))"
proof -
  have a: "reachable s \<longrightarrow>
      distinct (map fst (generatedImages s)) \<and> set (map fst (generatedImages s)) \<subseteq> set POSES"
    using reachable_inv [of s] by (simp add: images_inv_def)
  have b: "images_inv (generatedImages s) \<and> step s s' \<longrightarrow> images_inv (generatedImages s')"
    using step_preserves_inv [of s s'] by blast
  have c: "images_inv m \<longleftrightarrow> distinct (map fst m) \<and> set (map fst m) \<subseteq> set POSES"
    by (rule images_inv_def)
  have d: "length POSES = 6" by (simp add: POSES_def)
  have e: "reachable s \<longrightarrow>
        reachable (snd (generateBaseModel prompt api1 s))
        \<and> reachable (snd (handleApproveAndGenerateSheet promptFor api s))
        \<and> reachable (handleCharacterEdited editedImageUrl s)
        \<and> reachable (handleReset s)
        \<and> reachable (snd (handleImageUpload readAsDataURL files s))"
  proof
    assume r: "reachable s"
    show "reachable (snd (generateBaseModel prompt api1 s))
        \<and> reachable (snd (handleApproveAndGenerateSheet promptFor api s))
        \<and> reachable (handleCharacterEdited editedImageUrl s)
        \<and> reachable (handleReset s)
        \<and> reachable (snd (handleImageUpload readAsDataURL files s))"
      using reachable_trans [OF r generateBaseModel_steps]
        reachable_trans [OF r handleApproveAndGenerateSheet_steps]
        reachable_step [OF r step.edited] reachable_step [OF r step.reset]
        reachable_step [OF r step.upload]
      by (intro conjI)
  qed
  show ?thesis by (rule conjI [OF a conjI [OF b conjI [OF c conjI [OF d e]]]])
qed

theorem generated_images_one_record_per_pose_witness:
  "reachable (pose_settled ''Side View'' (Inl ''The AI service is temporarily unavailable.'')
      (sheet_pending (baseModel_settled (Inr ''data:image/png;base64,QUJD'')
         (baseModel_pending initial))))
   \<and> map fst (generatedImages
        (pose_settled ''Side View'' (Inl ''The AI service is temporarily unavailable.'')
          (sheet_pending (baseModel_settled (Inr ''data:image/png;base64,QUJD'')
             (baseModel_pending initial)))))
     = [''Front View'', ''Side View'', ''Back View'', ''Action Pose'', ''Happy Expression'',
        ''Angry Expression'']
   \<and> distinct (map fst (generatedImages
        (pose_settled ''Side View'' (Inl ''The AI service is temporarily unavailable.'')
          (sheet_pending (baseModel_settled (Inr ''data:image/png;base64,QUJD'')
             (baseModel_pending initial))))))"
proof -
  let ?s1 = "baseModel_pending initial"
  let ?s2 = "baseModel_settled (Inr ''data:image/png;base64,QUJD'') ?s1"
  let ?s3 = "sheet_pending ?s2"
  let ?s4 = "pose_settled ''Side View'' (Inl ''The AI service is temporarily unavailable.'') ?s3"
  have side: "''Side View'' \<in> set remainingPoses"
    by (simp add: remainingPoses_def POSES_def)
  have "step\<^sup>*\<^sup>* initial ?s1" by (rule r_into_rtranclp) (rule step.base_pending)
  also have "step ?s1 ?s2" by (rule step.base_settled)
  also have "step ?s2 ?s3" by (rule step.approve)
  also have "step ?s3 ?s4" by (rule step.pose) (rule side)
  finally have r: "reachable ?s4" by (simp only: reachable_def)
  have keys: "map fst (generatedImages ?s4)
     = [''Front View'', ''Side View'', ''Back View'', ''Action Pose'', ''Happy Expression'',
        ''Angry Expression'']"
    by (simp add: pose_settled_def sheet_pending_def baseModel_settled_def baseModel_pending_def
        initial_def remainingPoses_def POSES_def)
  from generated_images_one_record_per_pose [where s = ?s4, THEN conjunct1, THEN mp, OF r]
  have "distinct (map fst (generatedImages ?s4))" by (rule conjunct1)
  with r keys show ?thesis by (intro conjI)
qed

section \<open>Downloading the sheet\<close>

lemma update_fresh:
  "k \<notin> fst ` set al \<Longrightarrow> AList.update k v al = al @ [(k, v)]"
  by (induction al) auto

lemma fold_update_distinct:
  "distinct (map fst (acc @ xs)) \<Longrightarrow>
   fold (\<lambda>(k, v) acc. AList.update k v acc) xs acc = acc @ xs"
proof (induction xs arbitrary: acc)
  case Nil
  then show ?case by simp
next
  case (Cons x xs)
  obtain k v where x: "x = (k, v)" by (cases x)
  from Cons.prems have fresh: "k \<notin> fst ` set acc" by (auto simp: x)
  from Cons.prems have "distinct (map fst ((acc @ [x]) @ xs))" by simp
  from Cons.IH [OF this] show ?case by (simp add: x update_fresh [OF fresh])
qed

lemma from_entries_distinct: "distinct (map fst xs) \<Longrightarrow> from_entries xs = xs"
  unfolding from_entries_def using fold_update_distinct [of "[]" xs] by simp

lemma completed_keys:
  "map fst (map (\<lambda>(pose, image). (pose, the (url image))) (filter P m)) = map fst (filter P m)"
  by (induction m) auto

lemma completedImages_distinct:
  assumes "distinct (map fst m)"
  shows "completedImages m
         = map (\<lambda>(pose, image). (pose, the (url image)))
             (filter (\<lambda>(pose, image). completed image) m)"
proof -
  have "distinct (map fst (filter (\<lambda>(pose, image). completed image) m))"
    using assms by (rule distinct_map_filter)
  then show ?thesis
    unfolding completedImages_def by (intro from_entries_distinct) (simp only: completed_keys)
qed

lemma completed_key_iff:
  assumes "distinct (map fst m)"
  shows "pose \<in> set (map fst (filter (\<lambda>(pose, image). completed image) m))
         \<longleftrightarrow> pose_completed m pose"
proof -
  have "pose_completed m pose \<longleftrightarrow> (\<exists>img. map_of m pose = Some img \<and> completed img)"
    by (simp add: pose_completed_def split: option.splits)
  also have "\<dots> \<longleftrightarrow> (\<exists>img. (pose, img) \<in> set m \<and> completed img)"
    by (simp only: map_of_eq_Some_iff [OF assms])
  finally show ?thesis by force
qed

lemma length_completed_less_iff:
  assumes "images_inv m"
  shows "length (map fst (completedImages m)) < length POSES
         \<longleftrightarrow> (\<exists>pose \<in> set POSES. \<not> pose_completed m pose)"
proof -
  let ?K = "map fst (filter (\<lambda>(pose, image). completed image) m)"
  from assms have d: "distinct (map fst m)" and sub: "set (map fst m) \<subseteq> set POSES"
    by (simp_all add: images_inv_def)
  have keys: "map fst (completedImages m) = ?K"
    by (simp only: completedImages_distinct [OF d] completed_keys)
  have dK: "distinct ?K" using d by (rule distinct_map_filter)
  have subK: "set ?K \<subseteq> set POSES" using sub by auto
  have dP: "distinct POSES" by (simp add: POSES_def)
  have "card (set ?K) = length ?K" by (rule distinct_card [OF dK])
  moreover have "card (set POSES) = length POSES" by (rule distinct_card [OF dP])
  moreover have "card (set ?K) < card (set POSES) \<longleftrightarrow> set ?K \<noteq> set POSES"
    using subK by (metis List.finite_set card_subset_eq card_mono le_neq_implies_less less_irrefl)
  moreover have "set ?K \<noteq> set POSES \<longleftrightarrow> (\<exists>pose \<in> set POSES. pose \<notin> set ?K)"
    using subK by blast
  ultimately have "length ?K < length POSES \<longleftrightarrow> (\<exists>pose \<in> set POSES. pose \<notin> set ?K)"
    by metis
  then show ?thesis
    unfolding keys by (simp only: completed_key_iff [OF d])
qed

lemma download_imageData:
  "from_entries
     (map (\<lambda>(pose, image). (pose, the (url image)))
        (filter (\<lambda>(pose, image). status image = Done \<and> js_truthy (url image)) m))
   = completedImages m"
  by (simp add: completedImages_def completed_def)

lemma handleDownloadSheet_incomplete:
  assumes "images_inv (generatedImages s)"
    and "\<exists>pose \<in> set POSES. \<not> pose_completed (generatedImages s) pose"
  shows "handleDownloadSheet b s
         = ([Alert (''Please wait for all images to finish generating ''
                    @ ''before downloading the sheet.'')],
            s\<lparr>isDownloading := False\<rparr>)"
proof -
  have "length (map fst (completedImages (generatedImages s))) < length POSES"
    using assms by (simp only: length_completed_less_iff)
  then show ?thesis
    unfolding handleDownloadSheet_def download_imageData Let_def by (simp only: if_True)
qed

lemma handleDownloadSheet_complete:
  assumes "images_inv (generatedImages s)"
    and "\<forall>pose \<in> set POSES. pose_completed (generatedImages s) pose"
  shows "handleDownloadSheet b s
         = (case createCharacterSheet b (generatedImages s)
                   (\<lambda>sheetDataUrl. [Download sheetDataUrl ''character-crafter-sheet.jpg'']) of
              Inr (c, effects) \<Rightarrow>
                (CallCreateCharacterSheet # effects, s\<lparr>isDownloading := False\<rparr>)
            | Inl e \<Rightarrow>
                ([CallCreateCharacterSheet,
                  Alert (''Sorry, there was an error creating your character sheet. ''
                         @ ''Please try again.'')],
                 s\<lparr>isDownloading := False\<rparr>))"
proof -
  have "\<not> length (map fst (completedImages (generatedImages s))) < length POSES"
    using assms by (simp only: length_completed_less_iff) blast
  then show ?thesis
    unfolding handleDownloadSheet_def download_imageData Let_def by (simp only: if_False)
qed

lemma generatedImages_after_download:
  "generatedImages (snd (handleDownloadSheet b s)) = generatedImages s"
  by (simp add: handleDownloadSheet_def Let_def split: sum.splits prod.splits)

text \<open>
  C9. In a state whose map has distinct keys among the six pose labels: if some pose has
  no completed image, \<^verbatim>\<open>handleDownloadSheet\<close> only alerts, so \<^verbatim>\<open>createCharacterSheet\<close> is
  not called and nothing is downloaded; it calls \<^verbatim>\<open>createCharacterSheet\<close> exactly when
  all six poses are completed, and a download happens only then. \<open>generatedImages\<close> is
  never changed by it.
\<close>

theorem download_sheet_needs_all_six_poses:
  "images_inv (generatedImages s) \<longrightarrow>
     ((\<exists>pose \<in> set POSES. \<not> pose_completed (generatedImages s) pose) \<longrightarrow>
        handleDownloadSheet b s
          = ([Alert (''Please wait for all images to finish generating ''
                     @ ''before downloading the sheet.'')],
             s\<lparr>isDownloading := False\<rparr>))
     \<and> (CallCreateCharacterSheet \<in> set (fst (handleDownloadSheet b s)) \<longrightarrow>
          (\<forall>pose \<in> set POSES. pose_completed (generatedImages s) pose))
     \<and> ((\<exists>href name. Download href name \<in> set (fst (handleDownloadSheet b s))) \<longrightarrow>
          (\<forall>pose \<in> set POSES. pose_completed (generatedImages s) pose))
     \<and> ((\<forall>pose \<in> set POSES. pose_completed (generatedImages s) pose) \<longrightarrow>
          CallCreateCharacterSheet \<in> set (fst (handleDownloadSheet b s)))
     \<and> generatedImages (snd (handleDownloadSheet b s)) = generatedImages s"
proof
  assume inv: "images_inv (generatedImages s)"
  let ?all = "\<forall>pose \<in> set POSES. pose_completed (generatedImages s) pose"
  have a: "(\<exists>pose \<in> set POSES. \<not> pose_completed (generatedImages s) pose) \<longrightarrow>
        handleDownloadSheet b s
          = ([Alert (''Please wait for all images to finish generating ''
                     @ ''before downloading the sheet.'')],
             s\<lparr>isDownloading := False\<rparr>)"
    using handleDownloadSheet_incomplete [OF inv] by blast
  have quiet: "CallCreateCharacterSheet \<notin> set (fst (handleDownloadSheet b s))
      \<and> (\<forall>href name. Download href name \<notin> set (fst (handleDownloadSheet b s)))" if "\<not> ?all"
  proof -
    from that have "\<exists>pose \<in> set POSES. \<not> pose_completed (generatedImages s) pose" by blast
    from handleDownloadSheet_incomplete [OF inv this, of b] show ?thesis by simp
  qed
  have b: "CallCreateCharacterSheet \<in> set (fst (handleDownloadSheet b s)) \<longrightarrow> ?all"
    using quiet by blast
  have c: "(\<exists>href name. Download href name \<in> set (fst (handleDownloadSheet b s))) \<longrightarrow> ?all"
    using quiet by blast
  have d: "?all \<longrightarrow> CallCreateCharacterSheet \<in> set (fst (handleDownloadSheet b s))"
  proof
    assume ?all
    from handleDownloadSheet_complete [OF inv this, of b] show
      "CallCreateCharacterSheet \<in> set (fst (handleDownloadSheet b s))"
      by (simp split: sum.splits prod.splits)
  qed
  show "((\<exists>pose \<in> set POSES. \<not> pose_completed (generatedImages s) pose) \<longrightarrow>
        handleDownloadSheet b s
          = ([Alert (''Please wait for all images to finish generating ''
                     @ ''before downloading the sheet.'')],
             s\<lparr>isDownloading := False\<rparr>))
     \<and> (CallCreateCharacterSheet \<in> set (fst (handleDownloadSheet b s)) \<longrightarrow> ?all)
     \<and> ((\<exists>href name. Download href name \<in> set (fst (handleDownloadSheet b s))) \<longrightarrow> ?all)
     \<and> (?all \<longrightarrow> CallCreateCharacterSheet \<in> set (fst (handleDownloadSheet b s)))
     \<and> generatedImages (snd (handleDownloadSheet b s)) = generatedImages s"
    by (rule conjI [OF a conjI [OF b conjI [OF c conjI [OF d generatedImages_after_download]]]])
qed

theorem download_sheet_needs_all_six_poses_witness:
  "images_inv (generatedImages (pose_settled ''Side View'' (Inl ''unavailable'')
      (sheet_pending (baseModel_settled (Inr ''data:image/png;base64,QUJD'')
         (baseModel_pending initial)))))
   \<and> ''Side View'' \<in> set POSES
   \<and> \<not> pose_completed (generatedImages (pose_settled ''Side View'' (Inl ''unavailable'')
      (sheet_pending (baseModel_settled (Inr ''data:image/png;base64,QUJD'')
         (baseModel_pending initial))))) ''Side View''
   \<and> fst (handleDownloadSheet
        \<lparr>has2d = True, loads = (\<lambda>u. True), toDataURL = (\<lambda>c t q. ''data:image/jpeg;base64,SHEET'')\<rparr>
        (pose_settled ''Side View'' (Inl ''unavailable'')
          (sheet_pending (baseModel_settled (Inr ''data:image/png;base64,QUJD'')
             (baseModel_pending initial)))))
     = [Alert (''Please wait for all images to finish generating ''
                     @ ''before downloading the sheet.'')]"
proof -
  let ?s = "pose_settled ''Side View'' (Inl ''unavailable'')
      (sheet_pending (baseModel_settled (Inr ''data:image/png;base64,QUJD'')
         (baseModel_pending initial)))"
  let ?b = "\<lparr>has2d = True, loads = (\<lambda>u. True),
             toDataURL = (\<lambda>c t q. ''data:image/jpeg;base64,SHEET'')\<rparr>"
  have m: "generatedImages ?s
     = [(''Front View'', done_image ''data:image/png;base64,QUJD''),
        (''Side View'', error_image ''unavailable''),
        (''Back View'', pending_image), (''Action Pose'', pending_image),
        (''Happy Expression'', pending_image), (''Angry Expression'', pending_image)]"
    by (simp add: pose_settled_def sheet_pending_def baseModel_settled_def baseModel_pending_def
        initial_def remainingPoses_def POSES_def)
  have inv: "images_inv (generatedImages ?s)"
    unfolding m by (simp add: images_inv_def POSES_def)
  have side: "''Side View'' \<in> set POSES" by (simp add: POSES_def)
  have nc: "\<not> pose_completed (generatedImages ?s) ''Side View''"
    unfolding m by (simp add: pose_completed_def completed_def error_image_def)
  from side nc have ex: "\<exists>pose \<in> set POSES. \<not> pose_completed (generatedImages ?s) pose"
    by (rule bexI [rotated])
  note T = download_sheet_needs_all_six_poses
    [where s = ?s and b = ?b, THEN mp, OF inv, THEN conjunct1, THEN mp, OF ex]
  have "fst (handleDownloadSheet ?b ?s)
     = [Alert (''Please wait for all images to finish generating ''
                     @ ''before downloading the sheet.'')]"
    by (simp only: T fst_conv)
  with inv side nc show ?thesis by (intro conjI)
qed

section \<open>Generating the remaining poses\<close>

lemma sequential_events:
  "sequential (Some pose) (map RequestEvent es @ t) = sequential (Some pose) t"
  by (induction es) simp_all

lemma sequential_request:
  "sequential None ([RequestStart pose] @ map RequestEvent es @ [RequestEnd pose, Timeout n] @ t)
   = sequential None t"
  by (simp add: sequential_events)

lemma process_poses_trace:
  "fst (process_poses up bm pf api ps s) = concat (map (pose_trace up bm pf api) ps)"
  by (induction ps arbitrary: s) (simp_all add: Let_def processPose_def pose_trace_def)

lemma sequential_pose_traces:
  "sequential None (concat (map (pose_trace up bm pf api) ps))"
proof (induction ps)
  case Nil
  then show ?case by simp
next
  case (Cons p ps)
  have "concat (map (pose_trace up bm pf api) (p # ps))
        = [RequestStart p]
          @ map RequestEvent (fst (generateCharacterImage [up, bm] (pf p) (api p)))
          @ [RequestEnd p, Timeout 1000] @ concat (map (pose_trace up bm pf api) ps)"
    by (simp add: pose_trace_def)
  then show ?case using Cons.IH by (simp only: sequential_request)
qed

text \<open>
  C6. When its guard passes, \<^verbatim>\<open>handleApproveAndGenerateSheet\<close> runs the requests for
  Side View, Back View, Action Pose, Happy Expression, Angry Expression in this order:
  the request of a pose starts, does its API calls and waits, and settles; then the
  handler waits 1000 ms; then the next request starts. No request starts while another
  is in flight.
\<close>

theorem sheet_poses_requested_one_after_another:
  "js_truthy (uploadedImage s) \<and> js_truthy (baseModelImage s) \<and> selectedStyle s \<noteq> None
     \<and> js_truthy (selectedDetailedStyle s) \<longrightarrow>
   fst (handleApproveAndGenerateSheet promptFor api s)
     = concat (map (\<lambda>pose.
         [RequestStart pose]
         @ map RequestEvent
             (fst (generateCharacterImage [the (uploadedImage s), the (baseModelImage s)]
                (promptFor pose) (api pose)))
         @ [RequestEnd pose, Timeout 1000])
         [''Side View'', ''Back View'', ''Action Pose'', ''Happy Expression'',
          ''Angry Expression''])
   \<and> sequential None (fst (handleApproveAndGenerateSheet promptFor api s))"
proof
  assume g: "js_truthy (uploadedImage s) \<and> js_truthy (baseModelImage s) \<and> selectedStyle s \<noteq> None
     \<and> js_truthy (selectedDetailedStyle s)"
  let ?up = "the (uploadedImage s)" and ?bm = "the (baseModelImage s)"
  have rem: "remainingPoses = [''Side View'', ''Back View'', ''Action Pose'', ''Happy Expression'',
          ''Angry Expression'']"
    by (simp add: remainingPoses_def POSES_def)
  have t: "fst (handleApproveAndGenerateSheet promptFor api s)
           = concat (map (pose_trace ?up ?bm promptFor api) remainingPoses)"
  proof -
    from g have guard: "\<not> (\<not> js_truthy (uploadedImage s) \<or> \<not> js_truthy (baseModelImage s)
         \<or> selectedStyle s = None \<or> \<not> js_truthy (selectedDetailedStyle s))"
      by blast
    show ?thesis
      unfolding handleApproveAndGenerateSheet_def
      by (simp only: guard if_False Let_def fst_conv process_poses_trace)
  qed
  have pt: "pose_trace ?up ?bm promptFor api = (\<lambda>pose.
         [RequestStart pose]
         @ map RequestEvent
             (fst (generateCharacterImage [?up, ?bm] (promptFor pose) (api pose)))
         @ [RequestEnd pose, Timeout 1000])"
    by (rule ext) (simp only: pose_trace_def)
  have one: "fst (handleApproveAndGenerateSheet promptFor api s)
     = concat (map (\<lambda>pose.
         [RequestStart pose]
         @ map RequestEvent
             (fst (generateCharacterImage [?up, ?bm] (promptFor pose) (api pose)))
         @ [RequestEnd pose, Timeout 1000])
         [''Side View'', ''Back View'', ''Action Pose'', ''Happy Expression'',
          ''Angry Expression''])"
    unfolding t pt rem ..
  have two: "sequential None (fst (handleApproveAndGenerateSheet promptFor api s))"
    unfolding t by (rule sequential_pose_traces)
  from one two show "fst (handleApproveAndGenerateSheet promptFor api s)
     = concat (map (\<lambda>pose.
         [RequestStart pose]
         @ map RequestEvent
             (fst (generateCharacterImage [the (uploadedImage s), the (baseModelImage s)]
                (promptFor pose) (api pose)))
         @ [RequestEnd pose, Timeout 1000])
         [''Side View'', ''Back View'', ''Action Pose'', ''Happy Expression'',
          ''Angry Expression''])
   \<and> sequential None (fst (handleApproveAndGenerateSheet promptFor api s))"
    by (rule conjI)
qed

theorem sheet_poses_requested_one_after_another_witness:
  "js_truthy (uploadedImage (initial\<lparr>uploadedImage := Some ''data:image/png;base64,AAAA'',
       baseModelImage := Some ''data:image/png;base64,QUJD'', selectedStyle := Some Style2D,
       selectedDetailedStyle := Some ''manga-style''\<rparr>))
   \<and> fst (handleApproveAndGenerateSheet (\<lambda>pose. pose)
        (\<lambda>pose n. Throws (ErrorObj ''API key not valid''))
        (initial\<lparr>uploadedImage := Some ''data:image/png;base64,AAAA'',
           baseModelImage := Some ''data:image/png;base64,QUJD'', selectedStyle := Some Style2D,
           selectedDetailedStyle := Some ''manga-style''\<rparr>))
     = concat (map (\<lambda>pose.
          [RequestStart pose,
           RequestEvent (ApiCall 1 ([(''image/png'', ''AAAA''), (''image/png'', ''QUJD'')], pose)),
           RequestEnd pose, Timeout 1000])
          [''Side View'', ''Back View'', ''Action Pose'', ''Happy Expression'',
           ''Angry Expression''])"
proof -
  let ?s = "initial\<lparr>uploadedImage := Some ''data:image/png;base64,AAAA'',
       baseModelImage := Some ''data:image/png;base64,QUJD'', selectedStyle := Some Style2D,
       selectedDetailedStyle := Some ''manga-style''\<rparr>"
  let ?api = "\<lambda>(pose::string) (n::nat). Throws (ErrorObj ''API key not valid'')"
  have g: "js_truthy (uploadedImage ?s) \<and> js_truthy (baseModelImage ?s) \<and> selectedStyle ?s \<noteq> None
     \<and> js_truthy (selectedDetailedStyle ?s)"
    by (simp add: js_truthy_def)
  have up: "the (uploadedImage ?s) = ''data:image/png;base64,AAAA''"
    and bm: "the (baseModelImage ?s) = ''data:image/png;base64,QUJD''"
    by simp_all
  have parts: "imageParts CharacterImage
       [''data:image/png;base64,AAAA'', ''data:image/png;base64,QUJD'']
     = Inr [(''image/png'', ''AAAA''), (''image/png'', ''QUJD'')]"
    by (simp add: match_data_url_def is_word_char_def has_line_terminator_def)
  have run: "fst (generateCharacterImage
        [''data:image/png;base64,AAAA'', ''data:image/png;base64,QUJD''] p
        (\<lambda>n. Throws (ErrorObj ''API key not valid'')))
     = [ApiCall 1 ([(''image/png'', ''AAAA''), (''image/png'', ''QUJD'')], p)]" for p
    unfolding generateCharacterImage_def parts
    by (simp add: retry_loop_1 try_block_def errorMessage_def key_not_retryable)
  note T = sheet_poses_requested_one_after_another
    [where s = ?s and api = ?api and promptFor = "\<lambda>pose. pose", THEN mp, OF g, THEN conjunct1]
  have "fst (handleApproveAndGenerateSheet (\<lambda>pose. pose) ?api ?s)
     = concat (map (\<lambda>pose.
          [RequestStart pose,
           RequestEvent (ApiCall 1 ([(''image/png'', ''AAAA''), (''image/png'', ''QUJD'')], pose)),
           RequestEnd pose, Timeout 1000])
          [''Side View'', ''Back View'', ''Action Pose'', ''Happy Expression'',
           ''Angry Expression''])"
    unfolding T up bm run by simp
  with g show ?thesis by blast
qed

section \<open>The layout of the sheet\<close>

lemma map_enumerate_nth:
  "map f (enumerate 0 xs) = map (\<lambda>i. f (i, xs ! i)) [0..<length xs]"
  by (rule nth_equalityI) (simp_all add: nth_enumerate_eq)

lemma draw_cards_by_index:
  "concat (map draw_card (enumerate 0 (zip (map fst cs) (map Img (map snd cs)))))
   = concat (map (\<lambda>i. draw_cell (fst (cs ! i)) (Img (snd (cs ! i))) (i div 3) (i mod 3))
       [0..<length cs])"
proof -
  have "map draw_card (enumerate 0 (zip (map fst cs) (map Img (map snd cs))))
        = map (\<lambda>i. draw_card (i, zip (map fst cs) (map Img (map snd cs)) ! i))
            [0..<length (zip (map fst cs) (map Img (map snd cs)))]"
    by (rule map_enumerate_nth)
  also have "\<dots> = map (\<lambda>i. draw_cell (fst (cs ! i)) (Img (snd (cs ! i))) (i div 3) (i mod 3))
       [0..<length cs]"
    by (rule nth_equalityI) (simp_all add: draw_card_def grid_cols_def Let_def)
  finally show ?thesis by simp
qed

lemma draw_cell_explicit:
  "draw_cell pose img row col
   = [Save,
      Translate (1304 / 5 + 1136 * of_nat col) (847 / 2 + 1040 * of_nat row),
      RoundRect 0 0 (3572 / 5) 893 16,
      DrawImage img (893 / 25) (893 / 25) (16074 / 25) (3572 / 5),
      FillText pose (1786 / 5) (20539 / 25),
      Restore]"
  by (simp add: draw_cell_def Let_def grid_padding_def cellWidth_def cellHeight_def
      cardWidth_def cardHeight_def maxCardWidth_def maxCardHeight_def cardAspectRatio_def
      contentHeight_def contentTopMargin_def canvasWidth_def canvasHeight_def grid_cols_def
      grid_rows_def imageContainerWidth_def imageContainerHeight_def algebra_simps)

lemma completed_urls_load:
  assumes "\<forall>(pose, imageObj) \<in> set m. completed imageObj \<longrightarrow> loads b (the (url imageObj))"
  shows "\<not> (\<exists>u \<in> set (map snd (map (\<lambda>(pose, imageObj). (pose, the (url imageObj)))
            (filter (\<lambda>(pose, imageObj). completed imageObj) m))). \<not> loads b u)"
  using assms by (induction m) auto

text \<open>
  C3. When the canvas has a 2D context and every completed image loads,
  \<^verbatim>\<open>createCharacterSheet\<close> draws on one canvas of 3508 x 2480, after the background and
  the title, the completed images in the order of their entries: the image with index
  \<open>i\<close> in the cell of row \<open>i div 3\<close> and column \<open>i mod 3\<close>, whose card starts at
  x = 260.8 + 1136 * column and y = 423.5 + 1040 * row; for up to six images this is a grid
  of 3 columns and 2 rows. It then calls \<^verbatim>\<open>onComplete\<close> once, with the canvas encoded by
  \<^verbatim>\<open>toDataURL('image/jpeg', 0.9)\<close>.
\<close>

theorem sheet_grid_layout:
  "has2d b \<and> distinct (map fst imageData)
     \<and> (\<forall>(pose, imageObj) \<in> set imageData. completed imageObj \<longrightarrow> loads b (the (url imageObj)))
   \<longrightarrow>
   (let cs = map (\<lambda>(pose, imageObj). (pose, the (url imageObj)))
               (filter (\<lambda>(pose, imageObj). completed imageObj) imageData);
        c = \<lparr>width = 3508, height = 2480,
             ops = background @ title
                   @ concat (map (\<lambda>i. draw_cell (fst (cs ! i)) (Img (snd (cs ! i)))
                                       (i div 3) (i mod 3))
                       [0..<length cs])\<rparr>
    in createCharacterSheet b imageData onComplete
         = Inr (c, onComplete (toDataURL b c ''image/jpeg'' (9 / 10))))
   \<and> draw_cell pose img row col
       = [Save,
          Translate (1304 / 5 + 1136 * of_nat col) (847 / 2 + 1040 * of_nat row),
          RoundRect 0 0 (3572 / 5) 893 16,
          DrawImage img (893 / 25) (893 / 25) (16074 / 25) (3572 / 5),
          FillText pose (1786 / 5) (20539 / 25),
          Restore]
   \<and> ((i::nat) < 6 \<longrightarrow> i mod 3 < 3 \<and> i div 3 < 2)"
proof
  assume h: "has2d b \<and> distinct (map fst imageData)
     \<and> (\<forall>(pose, imageObj) \<in> set imageData. completed imageObj \<longrightarrow> loads b (the (url imageObj)))"
  let ?cs = "map (\<lambda>(pose, imageObj). (pose, the (url imageObj)))
               (filter (\<lambda>(pose, imageObj). completed imageObj) imageData)"
  from h have ctx: "has2d b" and d: "distinct (map fst imageData)"
    and l: "\<forall>(pose, imageObj) \<in> set imageData. completed imageObj \<longrightarrow> loads b (the (url imageObj))"
    by blast+
  have grid: "i < 6 \<longrightarrow> i mod 3 < 3 \<and> i div 3 < 2" by auto
  have cs: "completedImages imageData = ?cs" by (rule completedImages_distinct [OF d])
  have ld: "\<not> (\<exists>u \<in> set (map snd ?cs). \<not> loads b u)" by (rule completed_urls_load [OF l])
  have "createCharacterSheet b imageData onComplete
        = (let c = \<lparr>width = 3508, height = 2480,
             ops = background @ title
                   @ concat (map (\<lambda>i. draw_cell (fst (?cs ! i)) (Img (snd (?cs ! i)))
                                       (i div 3) (i mod 3))
                       [0..<length ?cs])\<rparr>
           in Inr (c, onComplete (toDataURL b c ''image/jpeg'' (9 / 10))))"
    unfolding createCharacterSheet_def cs
    by (simp only: ctx ld Let_def if_False not_True_eq_False not_not draw_cards_by_index
        canvasWidth_def canvasHeight_def)
  then have one: "let cs = ?cs;
        c = \<lparr>width = 3508, height = 2480,
             ops = background @ title
                   @ concat (map (\<lambda>i. draw_cell (fst (cs ! i)) (Img (snd (cs ! i)))
                                       (i div 3) (i mod 3))
                       [0..<length cs])\<rparr>
    in createCharacterSheet b imageData onComplete
         = Inr (c, onComplete (toDataURL b c ''image/jpeg'' (9 / 10)))"
    by (simp only: Let_def)
  show "(let cs = ?cs;
        c = \<lparr>width = 3508, height = 2480,
             ops = background @ title
                   @ concat (map (\<lambda>i. draw_cell (fst (cs ! i)) (Img (snd (cs ! i)))
                                       (i div 3) (i mod 3))
                       [0..<length cs])\<rparr>
    in createCharacterSheet b imageData onComplete
         = Inr (c, onComplete (toDataURL b c ''image/jpeg'' (9 / 10))))
   \<and> draw_cell pose img row col
       = [Save,
          Translate (1304 / 5 + 1136 * of_nat col) (847 / 2 + 1040 * of_nat row),
          RoundRect 0 0 (3572 / 5) 893 16,
          DrawImage img (893 / 25) (893 / 25) (16074 / 25) (3572 / 5),
          FillText pose (1786 / 5) (20539 / 25),
          Restore]
   \<and> ((i::nat) < 6 \<longrightarrow> i mod 3 < 3 \<and> i div 3 < 2)"
    by (rule conjI [OF one conjI [OF draw_cell_explicit grid]])
qed

theorem sheet_grid_layout_witness:
  "has2d \<lparr>has2d = True, loads = (\<lambda>u. True),
           toDataURL = (\<lambda>c t q. ''data:image/jpeg;base64,SHEET'')\<rparr>
   \<and> distinct (map fst
        [(''Front View'', done_image ''data:image/png;base64,AAAA''),
         (''Side View'', error_image ''unavailable''),
         (''Back View'', done_image ''data:image/png;base64,BBBB''),
         (''Action Pose'', done_image ''data:image/png;base64,CCCC''),
         (''Happy Expression'', done_image ''data:image/png;base64,DDDD''),
         (''Angry Expression'', pending_image)])
   \<and> createCharacterSheet
        \<lparr>has2d = True, loads = (\<lambda>u. True),
         toDataURL = (\<lambda>c t q. ''data:image/jpeg;base64,SHEET'')\<rparr>
        [(''Front View'', done_image ''data:image/png;base64,AAAA''),
         (''Side View'', error_image ''unavailable''),
         (''Back View'', done_image ''data:image/png;base64,BBBB''),
         (''Action Pose'', done_image ''data:image/png;base64,CCCC''),
         (''Happy Expression'', done_image ''data:image/png;base64,DDDD''),
         (''Angry Expression'', pending_image)]
        (\<lambda>sheetUrl. [Download sheetUrl ''character-sheet.png''])
     = Inr (\<lparr>width = 3508, height = 2480,
             ops = background @ title
                   @ draw_cell ''Front View'' (Img ''data:image/png;base64,AAAA'') 0 0
                   @ draw_cell ''Back View'' (Img ''data:image/png;base64,BBBB'') 0 1
                   @ draw_cell ''Action Pose'' (Img ''data:image/png;base64,CCCC'') 0 2
                   @ draw_cell ''Happy Expression'' (Img ''data:image/png;base64,DDDD'') 1 0\<rparr>,
            [Download ''data:image/jpeg;base64,SHEET'' ''character-sheet.png''])"
proof -
  let ?b = "\<lparr>has2d = True, loads = (\<lambda>u. True),
             toDataURL = (\<lambda>c t q. ''data:image/jpeg;base64,SHEET'')\<rparr>"
  let ?m = "[(''Front View'', done_image ''data:image/png;base64,AAAA''),
         (''Side View'', error_image ''unavailable''),
         (''Back View'', done_image ''data:image/png;base64,BBBB''),
         (''Action Pose'', done_image ''data:image/png;base64,CCCC''),
         (''Happy Expression'', done_image ''data:image/png;base64,DDDD''),
         (''Angry Expression'', pending_image)]"
  have ctx: "has2d ?b" by simp
  have d: "distinct (map fst ?m)" by simp
  have l: "\<forall>(pose, imageObj) \<in> set ?m. completed imageObj \<longrightarrow> loads ?b (the (url imageObj))"
    by simp
  have h: "has2d ?b \<and> distinct (map fst ?m)
     \<and> (\<forall>(pose, imageObj) \<in> set ?m. completed imageObj \<longrightarrow> loads ?b (the (url imageObj)))"
    using ctx d l by (intro conjI)
  have cs: "map (\<lambda>(pose, imageObj). (pose, the (url imageObj)))
               (filter (\<lambda>(pose, imageObj). completed imageObj) ?m)
            = [(''Front View'', ''data:image/png;base64,AAAA''),
               (''Back View'', ''data:image/png;base64,BBBB''),
               (''Action Pose'', ''data:image/png;base64,CCCC''),
               (''Happy Expression'', ''data:image/png;base64,DDDD'')]"
    by (simp add: completed_def done_image_def error_image_def pending_image_def js_truthy_def)
  have len: "length [(''Front View'', ''data:image/png;base64,AAAA''),
               (''Back View'', ''data:image/png;base64,BBBB''),
               (''Action Pose'', ''data:image/png;base64,CCCC''),
               (''Happy Expression'', ''data:image/png;base64,DDDD'')] = 4"
    by simp
  have four: "[0..<4] = [0, 1, 2, 3::nat]"
    by (simp add: upt_rec)
  note T = sheet_grid_layout
    [where b = ?b and imageData = ?m
       and onComplete = "\<lambda>sheetUrl. [Download sheetUrl ''character-sheet.png'']",
     THEN mp, OF h, THEN conjunct1]
  have r: "createCharacterSheet ?b ?m (\<lambda>sheetUrl. [Download sheetUrl ''character-sheet.png''])
     = Inr (\<lparr>width = 3508, height = 2480,
             ops = background @ title
                   @ draw_cell ''Front View'' (Img ''data:image/png;base64,AAAA'') 0 0
                   @ draw_cell ''Back View'' (Img ''data:image/png;base64,BBBB'') 0 1
                   @ draw_cell ''Action Pose'' (Img ''data:image/png;base64,CCCC'') 0 2
                   @ draw_cell ''Happy Expression'' (Img ''data:image/png;base64,DDDD'') 1 0\<rparr>,
            [Download ''data:image/jpeg;base64,SHEET'' ''character-sheet.png''])"
    using T [unfolded Let_def cs len four] by simp
  show ?thesis using ctx d r by (intro conjI)
qed

end
